theory Spec2Isabelle
  imports Main "HOL-Library.AList" "HOL-Library.Multiset"
begin

section \<open>The submissions manager of the TIG benchmarker\<close>

text \<open>
  A shallow embedding of \<^verbatim>\<open>tig_benchmarker/extensions/submissions_manager.py\<close>.
  The handlers of the class \<^verbatim>\<open>Extension\<close> become functions that take the
  extension object and the file system and return the updated ones; a Python exception
  is the value \<open>Inl e\<close>.

  Not in the source file and therefore parameters of the model: the classes
  \<^verbatim>\<open>BenchmarkSettings\<close>, \<^verbatim>\<open>MerkleHash\<close>, \<^verbatim>\<open>MerkleProof\<close>,
  \<^verbatim>\<open>Precommit\<close> and \<^verbatim>\<open>Block\<close> (type variables \<open>'s\<close>, \<open>'h\<close>,
  \<open>'p\<close>, \<open>'c\<close>, \<open>'b\<close>), the dictionaries that \<^verbatim>\<open>to_dict\<close> produces
  (type variable \<open>'j\<close>), and the methods \<^verbatim>\<open>to_dict\<close> and
  \<^verbatim>\<open>from_dict\<close> of the base class \<^verbatim>\<open>FromDict\<close>.
  Logging is modelled only for the warning of the two handlers that refuse a duplicate;
  the HTTP request itself (URL, headers) is not modelled, its response is an input.
\<close>

subsection \<open>Strings and paths\<close>

definition startswith :: "string \<Rightarrow> string \<Rightarrow> bool" where
  "startswith s pre = (take (length pre) s = pre)"

definition endswith :: "string \<Rightarrow> string \<Rightarrow> bool" where
  "endswith s suf = (length suf \<le> length s \<and> drop (length s - length suf) s = suf)"

text \<open>
  \<^verbatim>\<open>os.path.join(path, *p)\<close> of \<^verbatim>\<open>posixpath\<close>: a component that starts
  with the separator replaces everything before it, otherwise it is appended, with a
  separator unless the path so far is empty or already ends with one.
\<close>

fun os_path_join :: "string \<Rightarrow> string list \<Rightarrow> string" where
  "os_path_join path [] = path"
| "os_path_join path (b # p) =
     os_path_join
       (if startswith b ''/'' then b
        else if path = [] \<or> endswith path ''/'' then path @ b
        else path @ ''/'' @ b) p"

subsection \<open>The file system\<close>

text \<open>
  The files, as an association list from path to content, in directory-listing order.
  The content of a \<^verbatim>\<open>.json\<close> file is the dictionary that \<^verbatim>\<open>json.dump\<close>
  wrote and \<^verbatim>\<open>json.load\<close> reads back. Directories are implicit: a directory
  holds the files whose path is the directory's path, a separator and a name without
  separator, so \<^verbatim>\<open>os.makedirs\<close> changes nothing here and writing a file always
  succeeds. A path is the string the program built: it is not normalised, and a
  sub-directory is not an entry of a listing.
\<close>

type_synonym 'j filesystem = "(string \<times> 'j) list"

definition os_path_exists :: "'j filesystem \<Rightarrow> string \<Rightarrow> bool" where
  "os_path_exists fs path = (map_of fs path \<noteq> None)"

definition os_remove :: "'j filesystem \<Rightarrow> string \<Rightarrow> 'j filesystem" where
  "os_remove fs path = AList.delete path fs"

definition open_write :: "'j filesystem \<Rightarrow> string \<Rightarrow> 'j \<Rightarrow> 'j filesystem" where
  "open_write fs path d = AList.update path d fs"

definition open_read :: "'j filesystem \<Rightarrow> string \<Rightarrow> 'j option" where
  "open_read fs path = map_of fs path"

definition entry_name :: "string \<Rightarrow> string \<Rightarrow> string option" where
  "entry_name dir p =
     (let pre = (if dir = [] \<or> endswith dir ''/'' then dir else dir @ ''/'');
          name = drop (length pre) p
      in if take (length pre) p = pre \<and> name \<noteq> [] \<and> CHR ''/'' \<notin> set name
         then Some name else None)"

definition os_listdir :: "'j filesystem \<Rightarrow> string \<Rightarrow> string list" where
  "os_listdir fs dir = List.map_filter (\<lambda>(p, d). entry_name dir p) fs"

subsection \<open>The data classes\<close>

datatype error = ValueError | AttributeError | KeyError | FileNotFoundError

text \<open>
  The field \<^verbatim>\<open>request\<close> of a pending submission is annotated with the union of
  the three request classes. Python does not enforce the annotation, and
  \<^verbatim>\<open>submit\<close> has a branch for anything else: \<open>OtherRequest\<close> stands for an
  object of any other class.
\<close>

datatype ('s, 'h, 'p) request =
    SubmitPrecommitRequest 's int
  | SubmitBenchmarkRequest string 'h "int set"
  | SubmitProofRequest string "'p list"
  | OtherRequest

text \<open>The attribute \<^verbatim>\<open>request.benchmark_id\<close>; two of the classes have it.\<close>

fun benchmark_id :: "('s, 'h, 'p) request \<Rightarrow> error + string" where
  "benchmark_id (SubmitBenchmarkRequest b _ _) = Inr b"
| "benchmark_id (SubmitProofRequest b _) = Inr b"
| "benchmark_id _ = Inl AttributeError"

record submissions_manager_config =
  clear_precommits_submission_on_new_block :: bool
  max_retries :: "int option"
  ms_delay_between_retries :: int

record ('s, 'h, 'p) pending_submission =
  last_retry_time :: int
  retries :: int
  request :: "('s, 'h, 'p) request"

text \<open>The keys of the dictionary \<^verbatim>\<open>pending_submissions\<close>.\<close>

datatype submission_type = Precommit | Benchmark | Proof

fun type_name :: "submission_type \<Rightarrow> string" where
  "type_name Precommit = ''precommit''"
| "type_name Benchmark = ''benchmark''"
| "type_name Proof = ''proof''"

record ('s, 'h, 'p) extension =
  backup_folder :: string
  config :: submissions_manager_config
  pending_submissions :: "submission_type \<Rightarrow> ('s, 'h, 'p) pending_submission list"

text \<open>
  The methods of \<^verbatim>\<open>FromDict\<close>, which the source file imports:
  \<^verbatim>\<open>request.to_dict()\<close>, \<^verbatim>\<open>SubmitBenchmarkRequest.from_dict(d)\<close> and
  \<^verbatim>\<open>SubmitProofRequest.from_dict(d)\<close>. The two class methods return the fields
  of the instance they build, or raise.
\<close>

record ('s, 'h, 'p, 'j) from_dict =
  to_dict :: "('s, 'h, 'p) request \<Rightarrow> 'j"
  benchmark_from_dict :: "'j \<Rightarrow> error + string \<times> 'h \<times> int set"
  proof_from_dict :: "'j \<Rightarrow> error + string \<times> 'p list"

definition append_pending ::
  "('s, 'h, 'p) extension \<Rightarrow> submission_type \<Rightarrow> ('s, 'h, 'p) pending_submission
    \<Rightarrow> ('s, 'h, 'p) extension" where
  "append_pending ext st submission =
     ext\<lparr>pending_submissions :=
       (pending_submissions ext)(st := pending_submissions ext st @ [submission])\<rparr>"

subsection \<open>Construction and restoration\<close>

definition restore_request ::
  "('s, 'h, 'p, 'j) from_dict \<Rightarrow> submission_type \<Rightarrow> 'j \<Rightarrow> error + ('s, 'h, 'p) request" where
  "restore_request fd st d =
     (if st = Benchmark
      then (case benchmark_from_dict fd d of
              Inl e \<Rightarrow> Inl e
            | Inr (b, root, nonces) \<Rightarrow> Inr (SubmitBenchmarkRequest b root nonces))
      else (case proof_from_dict fd d of
              Inl e \<Rightarrow> Inl e
            | Inr (b, proofs) \<Rightarrow> Inr (SubmitProofRequest b proofs)))"

text \<open>
  The inner loop of \<^verbatim>\<open>_restore_pending_submissions\<close> over the listing of one
  directory. The second component of the state records the paths opened, in order. The
  creation of a missing directory before the listing has no counterpart, directories
  being implicit in the file system above.
\<close>

fun restore_files ::
  "('s, 'h, 'p, 'j) from_dict \<Rightarrow> 'j filesystem \<Rightarrow> submission_type \<Rightarrow> string \<Rightarrow> string list
    \<Rightarrow> ('s, 'h, 'p) extension \<times> string list
    \<Rightarrow> error + ('s, 'h, 'p) extension \<times> string list" where
  "restore_files fd fs st path [] acc = Inr acc"
| "restore_files fd fs st path (file # files) (ext, opened) =
     (if \<not> endswith file ''.json'' then restore_files fd fs st path files (ext, opened)
      else
        let file_path = os_path_join path [file] in
        case open_read fs file_path of
          None \<Rightarrow> Inl FileNotFoundError
        | Some d \<Rightarrow>
            (case restore_request fd st d of
               Inl e \<Rightarrow> Inl e
             | Inr r \<Rightarrow>
                 restore_files fd fs st path files
                   (append_pending ext st
                      \<lparr>last_retry_time = 0, retries = 0, request = r\<rparr>,
                    opened @ [file_path])))"

fun restore_types ::
  "('s, 'h, 'p, 'j) from_dict \<Rightarrow> 'j filesystem \<Rightarrow> submission_type list
    \<Rightarrow> ('s, 'h, 'p) extension \<times> string list
    \<Rightarrow> error + ('s, 'h, 'p) extension \<times> string list" where
  "restore_types fd fs [] acc = Inr acc"
| "restore_types fd fs (st # sts) acc =
     (let path = os_path_join (backup_folder (fst acc)) [type_name st] in
      case restore_files fd fs st path (os_listdir fs path) acc of
        Inl e \<Rightarrow> Inl e
      | Inr acc' \<Rightarrow> restore_types fd fs sts acc')"

definition restore_pending_submissions ::
  "('s, 'h, 'p, 'j) from_dict \<Rightarrow> 'j filesystem \<Rightarrow> ('s, 'h, 'p) extension
    \<Rightarrow> error + ('s, 'h, 'p) extension \<times> string list" where
  "restore_pending_submissions fd fs ext = restore_types fd fs [Benchmark, Proof] (ext, [])"

text \<open>\<^verbatim>\<open>Extension.__init__\<close>: empty queues, then restoration.\<close>

definition Extension_init ::
  "('s, 'h, 'p, 'j) from_dict \<Rightarrow> 'j filesystem \<Rightarrow> string \<Rightarrow> submissions_manager_config
    \<Rightarrow> error + ('s, 'h, 'p) extension \<times> string list" where
  "Extension_init fd fs folder cfg =
     restore_pending_submissions fd fs
       \<lparr>backup_folder = folder, config = cfg, pending_submissions = (\<lambda>_. [])\<rparr>"

subsection \<open>The ready handlers\<close>

definition on_precommit_ready ::
  "('s, 'h, 'p) extension \<Rightarrow> 's \<Rightarrow> int \<Rightarrow> ('s, 'h, 'p) extension" where
  "on_precommit_ready ext settings num_nonces =
     append_pending ext Precommit
       \<lparr>last_retry_time = 0, retries = 0,
        request = SubmitPrecommitRequest settings num_nonces\<rparr>"

text \<open>
  \<^verbatim>\<open>any(x.request.benchmark_id == benchmark_id for x in queue)\<close>: it stops at
  the first match, and raises at an item without the attribute met before one.
\<close>

fun any_benchmark_id ::
  "string \<Rightarrow> ('s, 'h, 'p) pending_submission list \<Rightarrow> error + bool" where
  "any_benchmark_id b [] = Inr False"
| "any_benchmark_id b (x # xs) =
     (case benchmark_id (request x) of
        Inl e \<Rightarrow> Inl e
      | Inr b' \<Rightarrow> if b' = b then Inr True else any_benchmark_id b xs)"

text \<open>The result of both handlers: the extension, the file system and the warnings logged.\<close>

definition on_benchmark_ready ::
  "('s, 'h, 'p, 'j) from_dict \<Rightarrow> ('s, 'h, 'p) extension \<times> 'j filesystem
    \<Rightarrow> string \<Rightarrow> 'h \<Rightarrow> int set
    \<Rightarrow> error + (('s, 'h, 'p) extension \<times> 'j filesystem) \<times> string list" where
  "on_benchmark_ready fd state b merkle_root solution_nonces =
     (case state of (ext, fs) \<Rightarrow>
      (case any_benchmark_id b (pending_submissions ext Benchmark) of
        Inl e \<Rightarrow> Inl e
      | Inr pending \<Rightarrow>
          if pending
          then Inr ((ext, fs), [''benchmark '' @ b @ '' already pending submission''])
          else
            (let r = SubmitBenchmarkRequest b merkle_root solution_nonces in
             Inr ((append_pending ext Benchmark
                     \<lparr>last_retry_time = 0, retries = 0, request = r\<rparr>,
                   open_write fs
                     (os_path_join (backup_folder ext) [''benchmark'', b @ ''.json''])
                     (to_dict fd r)),
                  []))))"

definition on_proof_ready ::
  "('s, 'h, 'p, 'j) from_dict \<Rightarrow> ('s, 'h, 'p) extension \<times> 'j filesystem
    \<Rightarrow> string \<Rightarrow> 'p list
    \<Rightarrow> error + (('s, 'h, 'p) extension \<times> 'j filesystem) \<times> string list" where
  "on_proof_ready fd state b merkle_proofs =
     (case state of (ext, fs) \<Rightarrow>
      (case any_benchmark_id b (pending_submissions ext Proof) of
        Inl e \<Rightarrow> Inl e
      | Inr pending \<Rightarrow>
          if pending
          then Inr ((ext, fs), [''proof '' @ b @ '' already in pending submissions''])
          else
            (let r = SubmitProofRequest b merkle_proofs in
             Inr ((append_pending ext Proof
                     \<lparr>last_retry_time = 0, retries = 0, request = r\<rparr>,
                   open_write fs
                     (os_path_join (backup_folder ext) [''proof'', b @ ''.json''])
                     (to_dict fd r)),
                  []))))"

subsection \<open>Reconciliation on a new block\<close>

text \<open>
  The condition of the inner loop, with the short circuit of \<^verbatim>\<open>or\<close>: the
  confirmed container \<^verbatim>\<open>kwargs[submission_type + "s"]\<close> is looked up only for
  an id that is in \<^verbatim>\<open>precommits\<close>. Of a container only membership is used.
\<close>

definition expired_or_confirmed ::
  "(string \<rightharpoonup> 'c) \<Rightarrow> (string \<rightharpoonup> string set) \<Rightarrow> submission_type \<Rightarrow> string \<Rightarrow> error + bool" where
  "expired_or_confirmed precommits kwargs st b =
     (if precommits b = None then Inr True
      else case kwargs (type_name st @ ''s'') of
             None \<Rightarrow> Inl KeyError
           | Some confirmed \<Rightarrow> Inr (b \<in> confirmed))"

fun filter_submissions ::
  "string \<Rightarrow> (string \<rightharpoonup> 'c) \<Rightarrow> (string \<rightharpoonup> string set) \<Rightarrow> submission_type
    \<Rightarrow> ('s, 'h, 'p) pending_submission list
    \<Rightarrow> ('s, 'h, 'p) pending_submission list \<times> 'j filesystem
    \<Rightarrow> error + ('s, 'h, 'p) pending_submission list \<times> 'j filesystem" where
  "filter_submissions folder precommits kwargs st [] acc = Inr acc"
| "filter_submissions folder precommits kwargs st (submission # rest) (filtered, fs) =
     (case benchmark_id (request submission) of
        Inl e \<Rightarrow> Inl e
      | Inr b \<Rightarrow>
          (case expired_or_confirmed precommits kwargs st b of
             Inl e \<Rightarrow> Inl e
           | Inr True \<Rightarrow>
               let path = os_path_join folder [b @ ''.json''] in
               filter_submissions folder precommits kwargs st rest
                 (filtered, if os_path_exists fs path then os_remove fs path else fs)
           | Inr False \<Rightarrow>
               filter_submissions folder precommits kwargs st rest
                 (filtered @ [submission], fs)))"

fun new_block_types ::
  "(string \<rightharpoonup> 'c) \<Rightarrow> (string \<rightharpoonup> string set) \<Rightarrow> submission_type list
    \<Rightarrow> ('s, 'h, 'p) extension \<times> 'j filesystem
    \<Rightarrow> error + ('s, 'h, 'p) extension \<times> 'j filesystem" where
  "new_block_types precommits kwargs [] state = Inr state"
| "new_block_types precommits kwargs (st # sts) (ext, fs) =
     (case filter_submissions (backup_folder ext) precommits kwargs st
             (pending_submissions ext st) ([], fs) of
        Inl e \<Rightarrow> Inl e
      | Inr (filtered, fs') \<Rightarrow>
          new_block_types precommits kwargs sts
            (ext\<lparr>pending_submissions := (pending_submissions ext)(st := filtered)\<rparr>, fs'))"

definition on_new_block ::
  "('s, 'h, 'p) extension \<times> 'j filesystem \<Rightarrow> 'b \<Rightarrow> (string \<rightharpoonup> 'c)
    \<Rightarrow> (string \<rightharpoonup> string set)
    \<Rightarrow> error + ('s, 'h, 'p) extension \<times> 'j filesystem" where
  "on_new_block state block precommits kwargs =
     (case state of (ext, fs) \<Rightarrow>
      new_block_types precommits kwargs [Benchmark, Proof]
        (if clear_precommits_submission_on_new_block (config ext)
         then ext\<lparr>pending_submissions := (pending_submissions ext)(Precommit := [])\<rparr>
         else ext,
         fs))"

subsection \<open>Submission\<close>

record http_response =
  resp_status :: int
  resp_text :: string

text \<open>
  The keyword arguments of the two kinds of \<^verbatim>\<open>emit\<close>: the response text with the
  dictionary of the request, or the response text, the status and the request.
\<close>

datatype ('s, 'h, 'p, 'j) emit_kwargs =
    SuccessKwargs string 'j
  | ErrorKwargs string int "('s, 'h, 'p) request"

type_synonym ('s, 'h, 'p, 'j) event = "string \<times> ('s, 'h, 'p, 'j) emit_kwargs"

fun request_submission_type :: "('s, 'h, 'p) request \<Rightarrow> error + submission_type" where
  "request_submission_type (SubmitPrecommitRequest _ _) = Inr Precommit"
| "request_submission_type (SubmitBenchmarkRequest _ _ _) = Inr Benchmark"
| "request_submission_type (SubmitProofRequest _ _) = Inr Proof"
| "request_submission_type OtherRequest = Inl ValueError"

definition may_retry :: "submissions_manager_config \<Rightarrow> ('s, 'h, 'p) pending_submission \<Rightarrow> bool" where
  "may_retry cfg submission =
     (case max_retries cfg of
        None \<Rightarrow> True
      | Some m \<Rightarrow> retries submission + 1 < m)"

text \<open>
  \<^verbatim>\<open>submit\<close>, for an attempt that receives a response. \<open>now\<close> is the clock
  read when the item is put back.
\<close>

definition submit ::
  "('s, 'h, 'p, 'j) from_dict \<Rightarrow> ('s, 'h, 'p) extension \<Rightarrow> ('s, 'h, 'p) pending_submission
    \<Rightarrow> http_response \<Rightarrow> int
    \<Rightarrow> error + ('s, 'h, 'p) extension \<times> ('s, 'h, 'p, 'j) event list" where
  "submit fd ext submission resp now =
     (case request_submission_type (request submission) of
        Inl e \<Rightarrow> Inl e
      | Inr st \<Rightarrow>
          let d = to_dict fd (request submission) in
          if resp_status resp = 200
          then Inr (ext, [(''submit_'' @ type_name st @ ''_success'',
                           SuccessKwargs (resp_text resp) d)])
          else
            Inr (if 500 \<le> resp_status resp \<and> resp_status resp \<le> 599
                    \<and> may_retry (config ext) submission
                 then append_pending ext st
                        (submission\<lparr>retries := retries submission + 1,
                                    last_retry_time := now\<rparr>)
                 else ext,
                 [(''submit_'' @ type_name st @ ''_error'',
                   ErrorKwargs (resp_text resp) (resp_status resp) (request submission))]))"

subsection \<open>The update tick\<close>

text \<open>
  One round of the loop of \<^verbatim>\<open>on_update\<close> over the three queues: the queue is
  replaced by its sorted copy (Python's \<^verbatim>\<open>sorted\<close> is stable, as
  \<^const>\<open>sort_key\<close> is), and its head is popped when the delay has passed.
\<close>

definition on_update_type ::
  "int \<Rightarrow> ('s, 'h, 'p) extension \<times> ('s, 'h, 'p) pending_submission list \<Rightarrow> submission_type
    \<Rightarrow> ('s, 'h, 'p) extension \<times> ('s, 'h, 'p) pending_submission list" where
  "on_update_type now acc st =
     (case acc of (ext, submissions) \<Rightarrow>
      if length (pending_submissions ext st) > 0 then
        let sorted_queue = sort_key last_retry_time (pending_submissions ext st) in
        if now - last_retry_time (hd sorted_queue) < ms_delay_between_retries (config ext)
        then (ext\<lparr>pending_submissions := (pending_submissions ext)(st := sorted_queue)\<rparr>,
              submissions)
        else (ext\<lparr>pending_submissions := (pending_submissions ext)(st := tl sorted_queue)\<rparr>,
              submissions @ [hd sorted_queue])
      else (ext, submissions))"

definition on_update_dequeue ::
  "int \<Rightarrow> ('s, 'h, 'p) extension
    \<Rightarrow> ('s, 'h, 'p) extension \<times> ('s, 'h, 'p) pending_submission list" where
  "on_update_dequeue now ext = foldl (on_update_type now) (ext, []) [Precommit, Benchmark, Proof]"

text \<open>
  \<^verbatim>\<open>asyncio.gather\<close> over the submissions of the tick. Each one changes only the
  queue of its own category, so every interleaving leaves the same queues; the model runs
  them in list order. \<open>post\<close> gives, for a request, the response it receives and the
  clock read after it.
\<close>

fun gather ::
  "('s, 'h, 'p, 'j) from_dict \<Rightarrow> (('s, 'h, 'p) request \<Rightarrow> http_response \<times> int)
    \<Rightarrow> ('s, 'h, 'p) extension \<Rightarrow> ('s, 'h, 'p) pending_submission list
    \<Rightarrow> error + ('s, 'h, 'p) extension \<times> ('s, 'h, 'p, 'j) event list" where
  "gather fd post ext [] = Inr (ext, [])"
| "gather fd post ext (s # ss) =
     (case submit fd ext s (fst (post (request s))) (snd (post (request s))) of
        Inl e \<Rightarrow> Inl e
      | Inr (ext', events) \<Rightarrow>
          (case gather fd post ext' ss of
             Inl e \<Rightarrow> Inl e
           | Inr (ext'', events') \<Rightarrow> Inr (ext'', events @ events')))"

definition on_update ::
  "('s, 'h, 'p, 'j) from_dict \<Rightarrow> int \<Rightarrow> (('s, 'h, 'p) request \<Rightarrow> http_response \<times> int)
    \<Rightarrow> ('s, 'h, 'p) extension
    \<Rightarrow> error + ('s, 'h, 'p) extension \<times> ('s, 'h, 'p, 'j) event list" where
  "on_update fd now post ext =
     (case on_update_dequeue now ext of
        (ext', submissions) \<Rightarrow> gather fd post ext' submissions)"

subsection \<open>The handlers as one transition function\<close>

text \<open>
  The events the extension subscribes to. A \<^verbatim>\<open>new_block\<close> event carries the
  block, the precommits and the two confirmed containers under the keywords
  \<^verbatim>\<open>benchmarks\<close> and \<^verbatim>\<open>proofs\<close>; an \<^verbatim>\<open>update\<close> event is
  given the clock and the answers of the server. Each handler runs to its end before the
  next event is handled.
\<close>

datatype ('s, 'h, 'p, 'c, 'b) input =
    PrecommitReady 's int
  | BenchmarkReady string 'h "int set"
  | ProofReady string "'p list"
  | NewBlock 'b "string \<Rightarrow> 'c option" "string set" "string set"
  | Update int "('s, 'h, 'p) request \<Rightarrow> http_response \<times> int"

fun step ::
  "('s, 'h, 'p, 'j) from_dict \<Rightarrow> ('s, 'h, 'p) extension \<times> 'j filesystem
    \<Rightarrow> ('s, 'h, 'p, 'c, 'b) input
    \<Rightarrow> error + ('s, 'h, 'p) extension \<times> 'j filesystem" where
  "step fd (ext, fs) (PrecommitReady settings num_nonces) =
     Inr (on_precommit_ready ext settings num_nonces, fs)"
| "step fd state (BenchmarkReady b merkle_root solution_nonces) =
     (case on_benchmark_ready fd state b merkle_root solution_nonces of
        Inl e \<Rightarrow> Inl e
      | Inr (state', warnings) \<Rightarrow> Inr state')"
| "step fd state (ProofReady b merkle_proofs) =
     (case on_proof_ready fd state b merkle_proofs of
        Inl e \<Rightarrow> Inl e
      | Inr (state', warnings) \<Rightarrow> Inr state')"
| "step fd state (NewBlock block precommits benchmarks proofs) =
     on_new_block state block precommits
       [''benchmarks'' \<mapsto> benchmarks, ''proofs'' \<mapsto> proofs]"
| "step fd (ext, fs) (Update now post) =
     (case on_update fd now post ext of
        Inl e \<Rightarrow> Inl e
      | Inr (ext', events) \<Rightarrow> Inr (ext', fs))"

fun run ::
  "('s, 'h, 'p, 'j) from_dict \<Rightarrow> ('s, 'h, 'p) extension \<times> 'j filesystem
    \<Rightarrow> ('s, 'h, 'p, 'c, 'b) input list
    \<Rightarrow> error + ('s, 'h, 'p) extension \<times> 'j filesystem" where
  "run fd state [] = Inr state"
| "run fd state (i # inputs) =
     (case step fd state i of
        Inl e \<Rightarrow> Inl e
      | Inr state' \<Rightarrow> run fd state' inputs)"

subsection \<open>Predicates on the queues\<close>

text \<open>Every item of a queue holds a request of the class of that queue.\<close>

definition queue_typed ::
  "submission_type \<Rightarrow> ('s, 'h, 'p) pending_submission list \<Rightarrow> bool" where
  "queue_typed st q = (\<forall>s\<in>set q. request_submission_type (request s) = Inr st)"

definition well_typed :: "('s, 'h, 'p) extension \<Rightarrow> bool" where
  "well_typed ext = (\<forall>st. queue_typed st (pending_submissions ext st))"

text \<open>
  What one round of the loop of \<^verbatim>\<open>on_update\<close> does to the queue \<open>st\<close>, when it
  takes the items \<open>taken\<close> out of it.
\<close>

definition round_spec ::
  "int \<Rightarrow> ('s, 'h, 'p) extension \<Rightarrow> ('s, 'h, 'p) extension \<Rightarrow> submission_type
    \<Rightarrow> ('s, 'h, 'p) pending_submission list \<Rightarrow> bool" where
  "round_spec now ext ext' st taken =
     (length taken \<le> 1 \<and>
      mset (pending_submissions ext st) = mset taken + mset (pending_submissions ext' st) \<and>
      (\<forall>s\<in>set taken.
         (\<forall>x\<in>set (pending_submissions ext st). last_retry_time s \<le> last_retry_time x) \<and>
         last_retry_time s + ms_delay_between_retries (config ext) \<le> now))"

text \<open>
  The scenario of an item that fails with the same response at every attempt: it is
  submitted, and submitted again each time \<^const>\<open>submit\<close> has put it back. The result
  is the number of times it was put back before it was dropped, \<open>None\<close> when it is
  still queued after \<open>fuel\<close> attempts.
\<close>

fun count_requeues ::
  "('s, 'h, 'p, 'j) from_dict \<Rightarrow> ('s, 'h, 'p) extension \<Rightarrow> http_response \<Rightarrow> int \<Rightarrow> nat
    \<Rightarrow> ('s, 'h, 'p) pending_submission \<Rightarrow> nat option" where
  "count_requeues fd ext resp now 0 s = None"
| "count_requeues fd ext resp now (Suc fuel) s =
     (case request_submission_type (request s) of
        Inl e \<Rightarrow> None
      | Inr st \<Rightarrow>
          (case submit fd ext s resp now of
             Inl e \<Rightarrow> None
           | Inr (ext', events) \<Rightarrow>
               if pending_submissions ext' st = pending_submissions ext st then Some 0
               else map_option Suc
                      (count_requeues fd ext resp now fuel (last (pending_submissions ext' st)))))"

text \<open>No queued item has used up \<open>N\<close> retries.\<close>

definition retries_below :: "int \<Rightarrow> ('s, 'h, 'p) extension \<Rightarrow> bool" where
  "retries_below N ext = (\<forall>st. \<forall>s\<in>set (pending_submissions ext st). retries s < N)"

text \<open>
  The \<^verbatim>\<open>benchmark_id\<close> attributes of the items of a queue, in queue order, and the
  two events that announce a benchmark or a proof.
\<close>

definition pending_ids ::
  "('s, 'h, 'p) extension \<Rightarrow> submission_type \<Rightarrow> (error + string) list" where
  "pending_ids ext st = map (\<lambda>x. benchmark_id (request x)) (pending_submissions ext st)"

fun is_ready :: "('s, 'h, 'p, 'c, 'b) input \<Rightarrow> bool" where
  "is_ready (BenchmarkReady _ _ _) = True"
| "is_ready (ProofReady _ _) = True"
| "is_ready _ = False"

text \<open>
  The \<^verbatim>\<open>.json\<close> entries of a directory, and what restoration makes of one of
  them: an item with zeroed bookkeeping whose request is decoded from the file.
\<close>

definition json_files :: "'j filesystem \<Rightarrow> string \<Rightarrow> string list" where
  "json_files fs path = filter (\<lambda>f. endswith f ''.json'') (os_listdir fs path)"

definition restored ::
  "('s, 'h, 'p, 'j) from_dict \<Rightarrow> 'j filesystem \<Rightarrow> submission_type \<Rightarrow> string
    \<Rightarrow> ('s, 'h, 'p) pending_submission \<Rightarrow> string \<Rightarrow> bool" where
  "restored fd fs st path s file =
     (last_retry_time s = 0 \<and> retries s = 0 \<and>
      (\<exists>d. open_read fs (os_path_join path [file]) = Some d \<and>
           restore_request fd st d = Inr (request s)))"

text \<open>
  A \<^verbatim>\<open>.json\<close> entry that the restoration can read and decode without an
  exception, and a backup folder in which every \<^verbatim>\<open>.json\<close> entry of the two
  directories is one.
\<close>

definition decodes ::
  "('s, 'h, 'p, 'j) from_dict \<Rightarrow> 'j filesystem \<Rightarrow> submission_type \<Rightarrow> string \<Rightarrow> string \<Rightarrow> bool" where
  "decodes fd fs st path f =
     (case open_read fs (os_path_join path [f]) of
        None \<Rightarrow> False
      | Some d \<Rightarrow> (case restore_request fd st d of Inl e \<Rightarrow> False | Inr r \<Rightarrow> True))"

definition restorable :: "('s, 'h, 'p, 'j) from_dict \<Rightarrow> 'j filesystem \<Rightarrow> string \<Rightarrow> bool" where
  "restorable fd fs folder =
     (list_all (decodes fd fs Benchmark (os_path_join folder [''benchmark'']))
        (json_files fs (os_path_join folder [''benchmark''])) \<and>
      list_all (decodes fd fs Proof (os_path_join folder [''proof'']))
        (json_files fs (os_path_join folder [''proof''])))"

subsection \<open>Example values\<close>

text \<open>
  An instance of the serialisation in which the dictionary of a request is the request
  itself, a configuration, and an extension with three benchmarks and two proofs queued.
\<close>

definition example_fd :: "(unit, string, nat, (unit, string, nat) request) from_dict" where
  "example_fd =
     \<lparr>to_dict = (\<lambda>r. r),
      benchmark_from_dict =
        (\<lambda>d. case d of SubmitBenchmarkRequest b h n \<Rightarrow> Inr (b, h, n) | _ \<Rightarrow> Inl ValueError),
      proof_from_dict =
        (\<lambda>d. case d of SubmitProofRequest b ps \<Rightarrow> Inr (b, ps) | _ \<Rightarrow> Inl ValueError)\<rparr>"

definition example_config :: submissions_manager_config where
  "example_config =
     \<lparr>clear_precommits_submission_on_new_block = True, max_retries = Some 3,
      ms_delay_between_retries = 1000\<rparr>"

definition fresh :: "('s, 'h, 'p) request \<Rightarrow> ('s, 'h, 'p) pending_submission" where
  "fresh r = \<lparr>last_retry_time = 0, retries = 0, request = r\<rparr>"

definition example_ext :: "(unit, string, nat) extension" where
  "example_ext =
     \<lparr>backup_folder = ''backup'', config = example_config,
      pending_submissions =
        (\<lambda>_. [])(Benchmark :=
                   [fresh (SubmitBenchmarkRequest ''b1'' ''r1'' {1}),
                    fresh (SubmitBenchmarkRequest ''b2'' ''r2'' {2}),
                    fresh (SubmitBenchmarkRequest ''b3'' ''r3'' {3})],
                 Proof :=
                   [fresh (SubmitProofRequest ''b1'' [1]),
                    fresh (SubmitProofRequest ''b2'' [2])])\<rparr>"

text \<open>
  The same extension with empty queues, a backup folder with two restorable files and two
  files that are not \<^verbatim>\<open>.json\<close> files, and a sequence of events.
\<close>

definition example_empty :: "(unit, string, nat) extension" where
  "example_empty =
     \<lparr>backup_folder = ''backup'', config = example_config, pending_submissions = (\<lambda>_. [])\<rparr>"

definition example_fs :: "(unit, string, nat) request filesystem" where
  "example_fs =
     [(''backup/benchmark/b1.json'', SubmitBenchmarkRequest ''b1'' ''r1'' {1}),
      (''backup/benchmark/notes.txt'', OtherRequest),
      (''backup/proof/b1.json'', SubmitProofRequest ''b1'' [1]),
      (''backup/proof/b2.json.tmp'', OtherRequest)]"

definition example_inputs :: "(unit, string, nat, unit, unit) input list" where
  "example_inputs =
     [BenchmarkReady ''b2'' ''r2'' {2},
      Update 5000 (\<lambda>_. (\<lparr>resp_status = 503, resp_text = ''unavailable''\<rparr>, 5001)),
      NewBlock () [''b1'' \<mapsto> ()] {} {''b1''}]"

section \<open>Properties\<close>

subsection \<open>Evaluation of the examples\<close>

lemmas eval_simps = os_listdir_def map_filter_def entry_name_def endswith_def startswith_def
  open_read_def open_write_def os_path_exists_def os_remove_def restore_request_def
  append_pending_def Let_def fresh_def

lemma ex_restore: "restore_pending_submissions example_fd example_fs example_empty =
   Inr (example_empty\<lparr>pending_submissions :=
          (\<lambda>_. [])(Benchmark := [fresh (SubmitBenchmarkRequest ''b1'' ''r1'' {1})],
                    Proof := [fresh (SubmitProofRequest ''b1'' [1])])\<rparr>,
        [''backup/benchmark/b1.json'', ''backup/proof/b1.json''])"
  by (simp add: restore_pending_submissions_def example_fd_def example_fs_def example_empty_def
      eval_simps)

lemma ex_ready: "on_benchmark_ready example_fd (example_empty, []) ''b1'' ''r1'' {1} =
   Inr ((example_empty\<lparr>pending_submissions :=
          (\<lambda>_. [])(Benchmark := [fresh (SubmitBenchmarkRequest ''b1'' ''r1'' {1})])\<rparr>,
         [(''backup/benchmark/b1.json'', SubmitBenchmarkRequest ''b1'' ''r1'' {1})]), [])"
  by (simp add: on_benchmark_ready_def example_fd_def example_empty_def eval_simps)

lemma ex_new_block: "on_new_block (example_empty\<lparr>pending_submissions :=
          (\<lambda>_. [])(Benchmark := [fresh (SubmitBenchmarkRequest ''b1'' ''r1'' {1})])\<rparr>,
         [(''backup/benchmark/b1.json'', SubmitBenchmarkRequest ''b1'' ''r1'' {1})]) ()
       (Map.empty :: string \<rightharpoonup> unit) [''benchmarks'' \<mapsto> {}, ''proofs'' \<mapsto> {}] =
    Inr (example_empty,
         [(''backup/benchmark/b1.json'', SubmitBenchmarkRequest ''b1'' ''r1'' {1})])"
  by (simp add: on_new_block_def example_empty_def example_config_def expired_or_confirmed_def eval_simps fun_eq_iff)

lemma ex_slash: "on_benchmark_ready example_fd (example_empty, []) ''/b1'' ''r1'' {1} =
   Inr ((example_empty\<lparr>pending_submissions :=
          (\<lambda>_. [])(Benchmark := [fresh (SubmitBenchmarkRequest ''/b1'' ''r1'' {1})])\<rparr>,
         [(''/b1.json'', SubmitBenchmarkRequest ''/b1'' ''r1'' {1})]), [])"
  by (simp add: on_benchmark_ready_def example_fd_def example_empty_def eval_simps)

lemma ex_slash_restore: "Extension_init example_fd
     [(''/b1.json'', SubmitBenchmarkRequest ''/b1'' ''r1'' {1})] ''backup'' example_config =
   Inr (example_empty, [])"
  by (simp add: Extension_init_def restore_pending_submissions_def example_fd_def example_empty_def eval_simps)

lemma ex_init: "Extension_init example_fd example_fs ''backup'' example_config =
   Inr (example_empty\<lparr>pending_submissions :=
          (\<lambda>_. [])(Benchmark := [fresh (SubmitBenchmarkRequest ''b1'' ''r1'' {1})],
                    Proof := [fresh (SubmitProofRequest ''b1'' [1])])\<rparr>,
        [''backup/benchmark/b1.json'', ''backup/proof/b1.json''])"
  using ex_restore by (simp add: Extension_init_def example_empty_def)

lemma ex_run: "run example_fd
     (example_empty\<lparr>pending_submissions :=
        (\<lambda>_. [])(Benchmark := [fresh (SubmitBenchmarkRequest ''b1'' ''r1'' {1})],
                  Proof := [fresh (SubmitProofRequest ''b1'' [1])])\<rparr>, example_fs)
     example_inputs =
   Inr (example_empty\<lparr>pending_submissions :=
          (\<lambda>_. [])(Benchmark :=
             [\<lparr>last_retry_time = 5001, retries = 1,
               request = SubmitBenchmarkRequest ''b1'' ''r1'' {1}\<rparr>])\<rparr>,
        example_fs @ [(''backup/benchmark/b2.json'', SubmitBenchmarkRequest ''b2'' ''r2'' {2})])"
  by (simp add: example_inputs_def example_empty_def example_fs_def example_fd_def example_config_def
      on_benchmark_ready_def on_update_def on_update_dequeue_def on_update_type_def submit_def
      may_retry_def on_new_block_def expired_or_confirmed_def eval_simps fun_eq_iff)

lemma ex_ready5: "on_benchmark_ready example_fd (example_empty, example_fs) ''b5'' ''r5'' {5} =
   Inr ((example_empty\<lparr>pending_submissions :=
          (\<lambda>_. [])(Benchmark := [fresh (SubmitBenchmarkRequest ''b5'' ''r5'' {5})])\<rparr>,
         example_fs @ [(''backup/benchmark/b5.json'', SubmitBenchmarkRequest ''b5'' ''r5'' {5})]), [])"
  by (simp add: on_benchmark_ready_def example_fd_def example_empty_def example_fs_def eval_simps)

lemma ex_restorable5: "restorable example_fd
     (example_fs @ [(''backup/benchmark/b5.json'', SubmitBenchmarkRequest ''b5'' ''r5'' {5})])
     ''backup''"
  by (simp add: restorable_def decodes_def json_files_def example_fd_def example_fs_def eval_simps)

lemma ex_proof_ready5: "on_proof_ready example_fd (example_empty, example_fs) ''b5'' [5] =
   Inr ((example_empty\<lparr>pending_submissions :=
          (\<lambda>_. [])(Proof := [fresh (SubmitProofRequest ''b5'' [5])])\<rparr>,
         example_fs @ [(''backup/proof/b5.json'', SubmitProofRequest ''b5'' [5])]), [])"
  by (simp add: on_proof_ready_def example_fd_def example_empty_def example_fs_def eval_simps)

lemma ex_proof_restorable5: "restorable example_fd
     (example_fs @ [(''backup/proof/b5.json'', SubmitProofRequest ''b5'' [5])]) ''backup''"
  by (simp add: restorable_def decodes_def json_files_def example_fd_def example_fs_def eval_simps)

lemma ex_old_ready: "on_benchmark_ready example_fd
     (example_empty, [(''backup/benchmark/old.json'', OtherRequest)]) ''b1'' ''r1'' {1} =
   Inr ((example_empty\<lparr>pending_submissions :=
          (\<lambda>_. [])(Benchmark := [fresh (SubmitBenchmarkRequest ''b1'' ''r1'' {1})])\<rparr>,
         [(''backup/benchmark/old.json'', OtherRequest),
          (''backup/benchmark/b1.json'', SubmitBenchmarkRequest ''b1'' ''r1'' {1})]), [])"
  by (simp add: on_benchmark_ready_def example_fd_def example_empty_def eval_simps)

lemma ex_old_init: "Extension_init example_fd
     [(''backup/benchmark/old.json'', OtherRequest),
      (''backup/benchmark/b1.json'', SubmitBenchmarkRequest ''b1'' ''r1'' {1})]
     ''backup'' example_config =
   (Inl ValueError :: error + (unit, string, nat) extension \<times> string list)"
  by (simp add: Extension_init_def restore_pending_submissions_def example_fd_def eval_simps)

subsection \<open>Queues of well-typed items\<close>

lemma example_ext_typed: "well_typed example_ext"
  unfolding well_typed_def queue_typed_def
proof
  fix st show "\<forall>s\<in>set (pending_submissions example_ext st). request_submission_type (request s) = Inr st"
    by (cases st) (simp_all add: example_ext_def fresh_def)
qed

lemma typed_benchmark_id:
  "request_submission_type r = Inr st \<Longrightarrow> st \<noteq> Precommit \<Longrightarrow> \<exists>b. benchmark_id r = Inr b"
  by (cases r) auto

lemma filter_submissions_typed:
  fixes fs :: "'j filesystem"
  assumes "queue_typed st q" "st \<noteq> Precommit" "kwargs (type_name st @ ''s'') = Some confirmed"
  shows "\<exists>fs'. filter_submissions folder precommits kwargs st q (filtered, fs) =
     Inr (filtered @ filter (\<lambda>s. \<exists>b. benchmark_id (request s) = Inr b \<and> b \<in> dom precommits \<and> b \<notin> confirmed) q, fs')"
  using assms
proof (induction q arbitrary: filtered fs)
  case Nil
  then show ?case by simp
next
  case (Cons s q)
  from Cons.prems have ty: "request_submission_type (request s) = Inr st" and q: "queue_typed st q"
    by (simp_all add: queue_typed_def)
  from typed_benchmark_id[OF ty Cons.prems(2)] obtain b where b: "benchmark_id (request s) = Inr b" by blast
  have IH: "\<exists>fs'. filter_submissions folder precommits kwargs st q (acc, fs0) =
     Inr (acc @ filter (\<lambda>s. \<exists>b. benchmark_id (request s) = Inr b \<and> b \<in> dom precommits \<and> b \<notin> confirmed) q, fs')"
    for acc and fs0 :: "'j filesystem"
    by (rule Cons.IH[OF q Cons.prems(2,3)])
  show ?case
  proof (cases "precommits b = None \<or> b \<in> confirmed")
    case True
    then have e: "expired_or_confirmed precommits kwargs st b = Inr True"
      using Cons.prems(3) by (auto simp: expired_or_confirmed_def)
    from True have nk: "\<not> (b \<in> dom precommits \<and> b \<notin> confirmed)" by auto
    define fs1 where "fs1 = (if os_path_exists fs (os_path_join folder [b @ ''.json''])
       then os_remove fs (os_path_join folder [b @ ''.json'']) else fs)"
    have "filter_submissions folder precommits kwargs st (s # q) (filtered, fs) =
        filter_submissions folder precommits kwargs st q (filtered, fs1)"
      by (simp add: b e Let_def fs1_def del: os_path_join.simps)
    moreover have "filter (\<lambda>s. \<exists>b. benchmark_id (request s) = Inr b \<and> b \<in> dom precommits \<and> b \<notin> confirmed) (s # q)
        = filter (\<lambda>s. \<exists>b. benchmark_id (request s) = Inr b \<and> b \<in> dom precommits \<and> b \<notin> confirmed) q"
      using b nk by simp
    ultimately show ?thesis using IH[of filtered fs1] by simp
  next
    case False
    then have e: "expired_or_confirmed precommits kwargs st b = Inr False"
      using Cons.prems(3) by (auto simp: expired_or_confirmed_def)
    from False have k: "b \<in> dom precommits \<and> b \<notin> confirmed" by auto
    have "filter_submissions folder precommits kwargs st (s # q) (filtered, fs) =
        filter_submissions folder precommits kwargs st q (filtered @ [s], fs)"
      by (simp add: b e)
    moreover have "filter (\<lambda>s. \<exists>b. benchmark_id (request s) = Inr b \<and> b \<in> dom precommits \<and> b \<notin> confirmed) (s # q)
        = s # filter (\<lambda>s. \<exists>b. benchmark_id (request s) = Inr b \<and> b \<in> dom precommits \<and> b \<notin> confirmed) q"
      using b k by simp
    ultimately show ?thesis using IH[of "filtered @ [s]" fs] by simp
  qed
qed

lemma submit_5xx_retry:
  assumes "request_submission_type (request s) = Inr st"
    and "500 \<le> resp_status resp" "resp_status resp \<le> 599"
    and "may_retry (config ext) s"
  shows "\<exists>events. submit fd ext s resp now =
     Inr (append_pending ext st (s\<lparr>retries := retries s + 1, last_retry_time := now\<rparr>), events)"
  using assms by (simp add: submit_def Let_def)

lemma submit_no_retry:
  assumes "request_submission_type (request s) = Inr st"
    and "\<not> (500 \<le> resp_status resp \<and> resp_status resp \<le> 599 \<and> may_retry (config ext) s)"
  shows "\<exists>events. submit fd ext s resp now = Inr (ext, events)"
  using assms by (auto simp add: submit_def Let_def)

lemma count_requeues_bound:
  assumes "request_submission_type (request s) = Inr st"
    and "500 \<le> resp_status resp" "resp_status resp \<le> 599"
    and "max_retries (config ext) = Some N"
    and "retries s < N" "nat (N - retries s) \<le> fuel"
  shows "count_requeues fd ext resp now fuel s = Some (nat (N - 1 - retries s))"
  using assms
proof (induction fuel arbitrary: s)
  case 0
  then show ?case by simp
next
  case (Suc fuel)
  show ?case
  proof (cases "retries s + 1 < N")
    case True
    then have mr: "may_retry (config ext) s" using Suc.prems(4) by (simp add: may_retry_def)
    define s' where "s' = s\<lparr>retries := retries s + 1, last_retry_time := now\<rparr>"
    from submit_5xx_retry[OF Suc.prems(1-3) mr, of fd now]
    obtain events where sub: "submit fd ext s resp now = Inr (append_pending ext st s', events)"
      by (auto simp: s'_def)
    have ne: "pending_submissions (append_pending ext st s') st \<noteq> pending_submissions ext st"
      by (simp add: append_pending_def)
    have la: "last (pending_submissions (append_pending ext st s') st) = s'"
      by (simp add: append_pending_def)
    have "count_requeues fd ext resp now fuel s' = Some (nat (N - 1 - retries s'))"
    proof (rule Suc.IH)
      show "request_submission_type (request s') = Inr st" using Suc.prems(1) by (simp add: s'_def)
      show "retries s' < N" using True by (simp add: s'_def)
      show "nat (N - retries s') \<le> fuel" using Suc.prems(6) True by (simp add: s'_def)
    qed (use Suc.prems in auto)
    then show ?thesis
      using Suc.prems(1) sub ne la True by (simp add: s'_def nat_diff_distrib')
  next
    case False
    then have mr: "\<not> may_retry (config ext) s" using Suc.prems(4) by (simp add: may_retry_def)
    then obtain events where sub: "submit fd ext s resp now = Inr (ext, events)"
      using submit_no_retry[OF Suc.prems(1), of resp ext fd now] by auto
    from False Suc.prems(5) have "N - 1 - retries s = 0" by simp
    then show ?thesis using Suc.prems(1) sub by simp
  qed
qed

lemma sort_key_not_Nil: "xs \<noteq> [] \<Longrightarrow> sort_key f xs \<noteq> []"
  using length_sort[of f xs] by (cases "sort_key f xs") simp_all

lemma hd_sort_key_least:
  assumes "x \<in> set xs"
  shows "f (hd (sort_key f xs)) \<le> f x"
proof -
  from assms have "xs \<noteq> []" by auto
  then have ne: "sort_key f xs \<noteq> []" by (rule sort_key_not_Nil)
  then obtain y ys where ys: "sort_key f xs = y # ys" by (cases "sort_key f xs") simp_all
  have srt: "sorted (map f (y # ys))" using sorted_sort_key[of f xs] ys by simp
  have "x \<in> set (sort_key f xs)" using assms by simp
  then have "x = y \<or> x \<in> set ys" using ys by simp
  then show ?thesis
  proof
    assume "x = y" then show ?thesis using ys by simp
  next
    assume "x \<in> set ys" then show ?thesis using srt ys by simp
  qed
qed

lemma on_update_type_spec:
  assumes "on_update_type now (ext, submissions) st = (ext', submissions')"
  shows "\<exists>taken. submissions' = submissions @ taken \<and> round_spec now ext ext' st taken \<and>
     (\<forall>st'. st' \<noteq> st \<longrightarrow> pending_submissions ext' st' = pending_submissions ext st') \<and>
     config ext' = config ext \<and> backup_folder ext' = backup_folder ext"
proof (cases "pending_submissions ext st = []")
  case True
  then have "ext' = ext" "submissions' = submissions"
    using assms by (simp_all add: on_update_type_def)
  then show ?thesis using True by (intro exI[of _ "[]"]) (simp add: round_spec_def)
next
  case False
  define q where "q = sort_key last_retry_time (pending_submissions ext st)"
  have qne: "q \<noteq> []" using False unfolding q_def by (rule sort_key_not_Nil)
  have mq: "mset q = mset (pending_submissions ext st)" by (simp add: q_def)
  have len: "0 < length (pending_submissions ext st)" using False by simp
  show ?thesis
  proof (cases "now - last_retry_time (hd q) < ms_delay_between_retries (config ext)")
    case True
    have "on_update_type now (ext, submissions) st =
        (ext\<lparr>pending_submissions := (pending_submissions ext)(st := q)\<rparr>, submissions)"
      using True len by (simp add: on_update_type_def q_def Let_def)
    then have e: "ext' = ext\<lparr>pending_submissions := (pending_submissions ext)(st := q)\<rparr>"
      and s: "submissions' = submissions"
      using assms by simp_all
    show ?thesis using mq e s by (intro exI[of _ "[]"]) (simp add: round_spec_def)
  next
    case d: False
    have "on_update_type now (ext, submissions) st =
        (ext\<lparr>pending_submissions := (pending_submissions ext)(st := tl q)\<rparr>, submissions @ [hd q])"
      using d len by (simp add: on_update_type_def q_def Let_def)
    then have e: "ext' = ext\<lparr>pending_submissions := (pending_submissions ext)(st := tl q)\<rparr>"
      and s: "submissions' = submissions @ [hd q]"
      using assms by simp_all
    have "mset q = mset [hd q] + mset (tl q)" using qne by (cases q) simp_all
    then have m: "mset (pending_submissions ext st) = mset [hd q] + mset (pending_submissions ext' st)"
      using mq e by simp
    have least: "\<forall>x\<in>set (pending_submissions ext st). last_retry_time (hd q) \<le> last_retry_time x"
      unfolding q_def by (intro ballI hd_sort_key_least)
    have dl: "last_retry_time (hd q) + ms_delay_between_retries (config ext) \<le> now"
      using d by simp
    have "round_spec now ext ext' st [hd q]"
      unfolding round_spec_def using m least dl by simp
    then show ?thesis using e s by (intro exI[of _ "[hd q]"]) simp
  qed
qed

lemma round_spec_frame:
  assumes "round_spec now e1 e2 st taken"
    and "pending_submissions e1 st = pending_submissions ext st"
    and "pending_submissions e2 st = pending_submissions ext' st"
    and "config e1 = config ext"
  shows "round_spec now ext ext' st taken"
  using assms unfolding round_spec_def by simp

lemma example_ext_distinct:
  "distinct (pending_ids example_ext Benchmark)" "distinct (pending_ids example_ext Proof)"
  by (simp_all add: pending_ids_def example_ext_def fresh_def)

lemma well_typed_append:
  assumes "well_typed ext" "request_submission_type (request s) = Inr st"
  shows "well_typed (append_pending ext st s)"
  using assms by (auto simp: well_typed_def queue_typed_def append_pending_def)

lemma retries_below_append:
  assumes "retries_below N ext" "retries s < N"
  shows "retries_below N (append_pending ext st s)"
  using assms by (auto simp: retries_below_def append_pending_def)

lemma well_typed_subset:
  assumes "well_typed ext" "\<And>st. set (pending_submissions ext' st) \<subseteq> set (pending_submissions ext st)"
  shows "well_typed ext'"
  using assms unfolding well_typed_def queue_typed_def by blast

lemma retries_below_subset:
  assumes "retries_below N ext" "\<And>st. set (pending_submissions ext' st) \<subseteq> set (pending_submissions ext st)"
  shows "retries_below N ext'"
  using assms unfolding retries_below_def by blast

lemma append_pending_frame:
  "config (append_pending ext st s) = config ext"
  "backup_folder (append_pending ext st s) = backup_folder ext"
  by (simp_all add: append_pending_def)

lemma submit_preserves:
  assumes ty: "request_submission_type (request s) = Inr st" and wt: "well_typed ext"
  shows "\<exists>ext' events. submit fd ext s resp now = Inr (ext', events) \<and> well_typed ext' \<and>
     config ext' = config ext \<and> backup_folder ext' = backup_folder ext \<and>
     (max_retries (config ext) = Some N \<longrightarrow> retries_below N ext \<longrightarrow> retries_below N ext')"
proof (cases "resp_status resp \<noteq> 200 \<and> 500 \<le> resp_status resp \<and> resp_status resp \<le> 599 \<and>
    may_retry (config ext) s")
  case True
  define s' where "s' = s\<lparr>retries := retries s + 1, last_retry_time := now\<rparr>"
  from True ty have sub: "\<exists>events. submit fd ext s resp now = Inr (append_pending ext st s', events)"
    by (simp add: submit_def Let_def s'_def)
  have t': "request_submission_type (request s') = Inr st" using ty by (simp add: s'_def)
  have r': "max_retries (config ext) = Some N \<Longrightarrow> retries s' < N"
    using True by (simp add: may_retry_def s'_def)
  from sub well_typed_append[OF wt t'] retries_below_append[of N ext s' st] r'
  show ?thesis by (auto simp: append_pending_frame)
next
  case False
  with ty have "\<exists>events. submit fd ext s resp now = Inr (ext, events)"
    by (auto simp: submit_def Let_def)
  with wt show ?thesis by auto
qed

lemma gather_preserves:
  assumes "\<forall>s\<in>set submissions. \<exists>st. request_submission_type (request s) = Inr st"
    and "well_typed ext"
  shows "\<exists>ext' events. gather fd post ext submissions = Inr (ext', events) \<and> well_typed ext' \<and>
     config ext' = config ext \<and> backup_folder ext' = backup_folder ext \<and>
     (max_retries (config ext) = Some N \<longrightarrow> retries_below N ext \<longrightarrow> retries_below N ext')"
  using assms
proof (induction submissions arbitrary: ext)
  case Nil
  then show ?case by simp
next
  case (Cons s ss)
  from Cons.prems(1) obtain st where ty: "request_submission_type (request s) = Inr st" by auto
  from submit_preserves[OF ty Cons.prems(2), of fd "fst (post (request s))" "snd (post (request s))" N]
  obtain e1 ev1 where s1: "submit fd ext s (fst (post (request s))) (snd (post (request s))) = Inr (e1, ev1)"
    and w1: "well_typed e1" and c1: "config e1 = config ext" and b1: "backup_folder e1 = backup_folder ext"
    and r1: "max_retries (config ext) = Some N \<longrightarrow> retries_below N ext \<longrightarrow> retries_below N e1"
    by blast
  from Cons.prems(1) have rest: "\<forall>s\<in>set ss. \<exists>st. request_submission_type (request s) = Inr st" by simp
  from Cons.IH[OF rest w1]
  obtain e2 ev2 where s2: "gather fd post e1 ss = Inr (e2, ev2)"
    and w2: "well_typed e2" and c2: "config e2 = config e1" and b2: "backup_folder e2 = backup_folder e1"
    and r2: "max_retries (config e1) = Some N \<longrightarrow> retries_below N e1 \<longrightarrow> retries_below N e2"
    by blast
  have "gather fd post ext (s # ss) = Inr (e2, ev1 @ ev2)" using s1 s2 by simp
  with w2 c1 c2 b1 b2 r1 r2 show ?case by auto
qed

subsection \<open>The update tick\<close>

lemma on_update_dequeue_rounds:
  assumes "on_update_dequeue now ext = (ext', submissions)"
  shows "\<exists>taken. submissions = taken Precommit @ taken Benchmark @ taken Proof \<and>
     (\<forall>st. round_spec now ext ext' st (taken st)) \<and>
     config ext' = config ext \<and> backup_folder ext' = backup_folder ext"
proof -
  obtain e1 s1 where r1: "on_update_type now (ext, []) Precommit = (e1, s1)"
    by (cases "on_update_type now (ext, []) Precommit")
  obtain e2 s2 where r2: "on_update_type now (e1, s1) Benchmark = (e2, s2)"
    by (cases "on_update_type now (e1, s1) Benchmark")
  obtain e3 s3 where r3: "on_update_type now (e2, s2) Proof = (e3, s3)"
    by (cases "on_update_type now (e2, s2) Proof")
  have "on_update_dequeue now ext = (e3, s3)"
    by (simp add: on_update_dequeue_def r1 r2 r3)
  then have fin: "ext' = e3" "submissions = s3" using assms by simp_all
  from on_update_type_spec[OF r1] obtain t1 where
      a1: "s1 = [] @ t1" and b1: "round_spec now ext e1 Precommit t1"
      and c1: "\<forall>st'. st' \<noteq> Precommit \<longrightarrow> pending_submissions e1 st' = pending_submissions ext st'"
      and d1: "config e1 = config ext" and f1: "backup_folder e1 = backup_folder ext"
    by (elim exE conjE)
  from on_update_type_spec[OF r2] obtain t2 where
      a2: "s2 = s1 @ t2" and b2: "round_spec now e1 e2 Benchmark t2"
      and c2: "\<forall>st'. st' \<noteq> Benchmark \<longrightarrow> pending_submissions e2 st' = pending_submissions e1 st'"
      and d2: "config e2 = config e1" and f2: "backup_folder e2 = backup_folder e1"
    by (elim exE conjE)
  from on_update_type_spec[OF r3] obtain t3 where
      a3: "s3 = s2 @ t3" and b3: "round_spec now e2 e3 Proof t3"
      and c3: "\<forall>st'. st' \<noteq> Proof \<longrightarrow> pending_submissions e3 st' = pending_submissions e2 st'"
      and d3: "config e3 = config e2" and f3: "backup_folder e3 = backup_folder e2"
    by (elim exE conjE)
  define taken where "taken = (\<lambda>st. case st of Precommit \<Rightarrow> t1 | Benchmark \<Rightarrow> t2 | Proof \<Rightarrow> t3)"
  have tk: "taken Precommit = t1" "taken Benchmark = t2" "taken Proof = t3"
    by (simp_all add: taken_def)
  have subs: "submissions = taken Precommit @ taken Benchmark @ taken Proof"
    using fin a1 a2 a3 tk by simp
  have p1: "round_spec now ext ext' Precommit t1"
    by (rule round_spec_frame[OF b1]) (use c2 c3 fin in simp_all)
  have p2: "round_spec now ext ext' Benchmark t2"
    by (rule round_spec_frame[OF b2]) (use c1 c3 d1 fin in simp_all)
  have p3: "round_spec now ext ext' Proof t3"
    by (rule round_spec_frame[OF b3]) (use c1 c2 d1 d2 fin in simp_all)
  have all: "round_spec now ext ext' st (taken st)" for st
    using p1 p2 p3 tk by (cases st) simp_all
  have cf: "config ext' = config ext" "backup_folder ext' = backup_folder ext"
    using fin d1 d2 d3 f1 f2 f3 by simp_all
  show ?thesis
  proof (rule exI[of _ taken], intro conjI allI)
    show "submissions = taken Precommit @ taken Benchmark @ taken Proof" by (rule subs)
  next
    fix st show "round_spec now ext ext' st (taken st)" by (rule all)
  next
    show "config ext' = config ext" by (rule cf)
  next
    show "backup_folder ext' = backup_folder ext" by (rule cf)
  qed
qed

lemma round_spec_sets:
  assumes "round_spec now ext ext' st taken"
  shows "set (pending_submissions ext' st) \<subseteq> set (pending_submissions ext st)"
    and "set taken \<subseteq> set (pending_submissions ext st)"
proof -
  from assms have m: "mset (pending_submissions ext st) = mset taken + mset (pending_submissions ext' st)"
    by (simp add: round_spec_def)
  have "set_mset (mset (pending_submissions ext st)) =
      set_mset (mset taken) \<union> set_mset (mset (pending_submissions ext' st))"
    unfolding m by simp
  then have e: "set (pending_submissions ext st) = set taken \<union> set (pending_submissions ext' st)"
    by simp
  show "set (pending_submissions ext' st) \<subseteq> set (pending_submissions ext st)" using e by blast
  show "set taken \<subseteq> set (pending_submissions ext st)" using e by blast
qed

lemma on_update_preserves:
  assumes wt: "well_typed ext"
  shows "\<exists>ext' events. on_update fd now post ext = Inr (ext', events) \<and> well_typed ext' \<and>
     config ext' = config ext \<and> backup_folder ext' = backup_folder ext \<and>
     (max_retries (config ext) = Some N \<longrightarrow> retries_below N ext \<longrightarrow> retries_below N ext')"
proof -
  obtain e1 subs where dq: "on_update_dequeue now ext = (e1, subs)"
    by (cases "on_update_dequeue now ext")
  from on_update_dequeue_rounds[OF dq] obtain taken where
    s: "subs = taken Precommit @ taken Benchmark @ taken Proof"
    and r: "\<And>st. round_spec now ext e1 st (taken st)"
    and c: "config e1 = config ext" and b: "backup_folder e1 = backup_folder ext"
    by (elim exE conjE) (rule that, assumption, erule spec, assumption+)
  have sub1: "\<And>st. set (pending_submissions e1 st) \<subseteq> set (pending_submissions ext st)"
    using round_spec_sets(1)[OF r] .
  have w1: "well_typed e1" by (rule well_typed_subset[OF wt sub1])
  have ty: "\<forall>s\<in>set subs. \<exists>st. request_submission_type (request s) = Inr st"
  proof
    fix x assume "x \<in> set subs"
    then obtain st where "x \<in> set (taken st)" unfolding s by auto
    then have "x \<in> set (pending_submissions ext st)" using round_spec_sets(2)[OF r] by blast
    then show "\<exists>st. request_submission_type (request x) = Inr st"
      using wt unfolding well_typed_def queue_typed_def by blast
  qed
  from gather_preserves[OF ty w1, of fd post N]
  obtain e2 events where g: "gather fd post e1 subs = Inr (e2, events)"
    and w2: "well_typed e2" and c2: "config e2 = config e1" and b2: "backup_folder e2 = backup_folder e1"
    and r2: "max_retries (config e1) = Some N \<longrightarrow> retries_below N e1 \<longrightarrow> retries_below N e2"
    by blast
  have u: "on_update fd now post ext = Inr (e2, events)"
    by (simp add: on_update_def dq g)
  have rb: "max_retries (config ext) = Some N \<longrightarrow> retries_below N ext \<longrightarrow> retries_below N e2"
    using r2 c retries_below_subset[of N ext e1, OF _ sub1] by auto
  from u w2 c c2 b b2 rb show ?thesis by auto
qed

subsection \<open>The ready handlers and reconciliation\<close>

lemma any_benchmark_id_typed:
  assumes "queue_typed st q" "st \<noteq> Precommit"
  shows "any_benchmark_id b q = Inr (Inr b \<in> set (map (\<lambda>x. benchmark_id (request x)) q))"
  using assms
proof (induction q)
  case Nil
  then show ?case by simp
next
  case (Cons x q)
  then have ty: "request_submission_type (request x) = Inr st" and q: "queue_typed st q"
    by (simp_all add: queue_typed_def)
  from typed_benchmark_id[OF ty Cons.prems(2)] obtain b' where b': "benchmark_id (request x) = Inr b'"
    by blast
  show ?case using Cons.IH[OF q Cons.prems(2)] b' by auto
qed

lemma on_benchmark_ready_typed:
  assumes "well_typed ext"
  shows "on_benchmark_ready fd (ext, fs) b root nonces =
     (if Inr b \<in> set (pending_ids ext Benchmark)
      then Inr ((ext, fs), [''benchmark '' @ b @ '' already pending submission''])
      else Inr ((append_pending ext Benchmark (fresh (SubmitBenchmarkRequest b root nonces)),
                 open_write fs (os_path_join (backup_folder ext) [''benchmark'', b @ ''.json''])
                   (to_dict fd (SubmitBenchmarkRequest b root nonces))), []))"
proof -
  from assms have "queue_typed Benchmark (pending_submissions ext Benchmark)"
    by (simp add: well_typed_def)
  from any_benchmark_id_typed[OF this, of b]
  show ?thesis
    by (simp add: on_benchmark_ready_def pending_ids_def fresh_def Let_def del: os_path_join.simps)
qed

lemma on_proof_ready_typed:
  assumes "well_typed ext"
  shows "on_proof_ready fd (ext, fs) b proofs =
     (if Inr b \<in> set (pending_ids ext Proof)
      then Inr ((ext, fs), [''proof '' @ b @ '' already in pending submissions''])
      else Inr ((append_pending ext Proof (fresh (SubmitProofRequest b proofs)),
                 open_write fs (os_path_join (backup_folder ext) [''proof'', b @ ''.json''])
                   (to_dict fd (SubmitProofRequest b proofs))), []))"
proof -
  from assms have "queue_typed Proof (pending_submissions ext Proof)"
    by (simp add: well_typed_def)
  from any_benchmark_id_typed[OF this, of b]
  show ?thesis
    by (simp add: on_proof_ready_def pending_ids_def fresh_def Let_def del: os_path_join.simps)
qed

lemma pending_ids_append:
  "pending_ids (append_pending ext st s) st' =
     (if st' = st then pending_ids ext st @ [benchmark_id (request s)] else pending_ids ext st')"
  by (simp add: pending_ids_def append_pending_def)

lemma ready_step:
  assumes "well_typed ext" "distinct (pending_ids ext Benchmark)" "distinct (pending_ids ext Proof)"
    and "is_ready i"
  shows "\<exists>ext' fs'. step fd (ext, fs) i = Inr (ext', fs') \<and> well_typed ext' \<and>
     distinct (pending_ids ext' Benchmark) \<and> distinct (pending_ids ext' Proof)"
proof (cases i)
  case (BenchmarkReady b root nonces)
  show ?thesis
  proof (cases "Inr b \<in> set (pending_ids ext Benchmark)")
    case True
    then show ?thesis using assms BenchmarkReady
      by (simp add: on_benchmark_ready_typed del: os_path_join.simps)
  next
    case False
    have "well_typed (append_pending ext Benchmark (fresh (SubmitBenchmarkRequest b root nonces)))"
      by (rule well_typed_append[OF assms(1)]) (simp add: fresh_def)
    then show ?thesis using assms False BenchmarkReady
      by (simp add: on_benchmark_ready_typed pending_ids_append fresh_def del: os_path_join.simps)
  qed
next
  case (ProofReady b proofs)
  show ?thesis
  proof (cases "Inr b \<in> set (pending_ids ext Proof)")
    case True
    then show ?thesis using assms ProofReady
      by (simp add: on_proof_ready_typed del: os_path_join.simps)
  next
    case False
    have "well_typed (append_pending ext Proof (fresh (SubmitProofRequest b proofs)))"
      by (rule well_typed_append[OF assms(1)]) (simp add: fresh_def)
    then show ?thesis using assms False ProofReady
      by (simp add: on_proof_ready_typed pending_ids_append fresh_def del: os_path_join.simps)
  qed
qed (use assms(4) in simp_all)

lemma ready_run:
  assumes "well_typed ext" "distinct (pending_ids ext Benchmark)" "distinct (pending_ids ext Proof)"
    and "\<forall>i\<in>set inputs. is_ready i"
  shows "\<exists>ext' fs'. run fd (ext, fs) inputs = Inr (ext', fs') \<and> well_typed ext' \<and>
     distinct (pending_ids ext' Benchmark) \<and> distinct (pending_ids ext' Proof)"
  using assms
proof (induction inputs arbitrary: ext fs)
  case Nil
  then show ?case by simp
next
  case (Cons i inputs)
  from Cons.prems(4) have ri: "is_ready i" and rest: "\<forall>i\<in>set inputs. is_ready i" by simp_all
  from ready_step[OF Cons.prems(1-3) ri, of fd fs]
  obtain e1 f1 where s: "step fd (ext, fs) i = Inr (e1, f1)" and w: "well_typed e1"
    and d: "distinct (pending_ids e1 Benchmark)" "distinct (pending_ids e1 Proof)"
    by blast
  from Cons.IH[OF w d rest, of f1] s show ?case by simp
qed

lemma on_new_block_typed:
  assumes "well_typed ext"
    and "kwargs ''benchmarks'' = Some benchmarks"
    and "kwargs ''proofs'' = Some proofs"
  shows "\<exists>ext' fs'. on_new_block (ext, fs) block precommits kwargs = Inr (ext', fs') \<and>
     config ext' = config ext \<and> backup_folder ext' = backup_folder ext \<and>
     pending_submissions ext' Precommit =
       (if clear_precommits_submission_on_new_block (config ext) then []
        else pending_submissions ext Precommit) \<and>
     pending_submissions ext' Benchmark =
       filter (\<lambda>s. \<exists>b. benchmark_id (request s) = Inr b \<and> b \<in> dom precommits \<and> b \<notin> benchmarks)
         (pending_submissions ext Benchmark) \<and>
     pending_submissions ext' Proof =
       filter (\<lambda>s. \<exists>b. benchmark_id (request s) = Inr b \<and> b \<in> dom precommits \<and> b \<notin> proofs)
         (pending_submissions ext Proof)"
proof -
  define ext1 where "ext1 = (if clear_precommits_submission_on_new_block (config ext)
         then ext\<lparr>pending_submissions := (pending_submissions ext)(Precommit := [])\<rparr>
         else ext)"
  have p1: "pending_submissions ext1 Benchmark = pending_submissions ext Benchmark"
    "pending_submissions ext1 Proof = pending_submissions ext Proof"
    "pending_submissions ext1 Precommit =
       (if clear_precommits_submission_on_new_block (config ext) then []
        else pending_submissions ext Precommit)"
    "config ext1 = config ext" "backup_folder ext1 = backup_folder ext"
    by (simp_all add: ext1_def)
  have tb: "queue_typed Benchmark (pending_submissions ext1 Benchmark)"
    and tp: "queue_typed Proof (pending_submissions ext1 Proof)"
    using assms(1) by (simp_all add: well_typed_def p1)
  from filter_submissions_typed[OF tb, of kwargs benchmarks "backup_folder ext1" precommits "[]" fs]
  obtain fs1 where f1: "filter_submissions (backup_folder ext1) precommits kwargs Benchmark
      (pending_submissions ext1 Benchmark) ([], fs) =
     Inr (filter (\<lambda>s. \<exists>b. benchmark_id (request s) = Inr b \<and> b \<in> dom precommits \<and> b \<notin> benchmarks)
         (pending_submissions ext1 Benchmark), fs1)"
    using assms(2) by auto
  from filter_submissions_typed[OF tp, of kwargs proofs "backup_folder ext1" precommits "[]" fs1]
  obtain fs2 where f2: "filter_submissions (backup_folder ext1) precommits kwargs Proof
      (pending_submissions ext1 Proof) ([], fs1) =
     Inr (filter (\<lambda>s. \<exists>b. benchmark_id (request s) = Inr b \<and> b \<in> dom precommits \<and> b \<notin> proofs)
         (pending_submissions ext1 Proof), fs2)"
    using assms(3) by auto
  have nb: "on_new_block (ext, fs) block precommits kwargs =
      new_block_types precommits kwargs [Benchmark, Proof] (ext1, fs)"
    by (simp add: on_new_block_def ext1_def)
  have "new_block_types precommits kwargs [Benchmark, Proof] (ext1, fs) =
      Inr (ext1\<lparr>pending_submissions := ((pending_submissions ext1)
             (Benchmark := filter (\<lambda>s. \<exists>b. benchmark_id (request s) = Inr b \<and> b \<in> dom precommits \<and> b \<notin> benchmarks)
                (pending_submissions ext1 Benchmark)))
             (Proof := filter (\<lambda>s. \<exists>b. benchmark_id (request s) = Inr b \<and> b \<in> dom precommits \<and> b \<notin> proofs)
                (pending_submissions ext1 Proof))\<rparr>, fs2)"
    using f1 f2 by simp
  then show ?thesis
    unfolding nb by (simp add: p1)
qed

lemma on_new_block_preserves:
  assumes wt: "well_typed ext"
  shows "\<exists>ext' fs'. on_new_block (ext, fs) block precommits
        [''benchmarks'' \<mapsto> benchmarks, ''proofs'' \<mapsto> proofs] = Inr (ext', fs') \<and>
     well_typed ext' \<and> config ext' = config ext \<and> backup_folder ext' = backup_folder ext \<and>
     (retries_below N ext \<longrightarrow> retries_below N ext')"
proof -
  from on_new_block_typed[OF wt, of "[''benchmarks'' \<mapsto> benchmarks, ''proofs'' \<mapsto> proofs]"
      benchmarks proofs fs block precommits]
  obtain ext' fs' where r: "on_new_block (ext, fs) block precommits
        [''benchmarks'' \<mapsto> benchmarks, ''proofs'' \<mapsto> proofs] = Inr (ext', fs')"
    and c: "config ext' = config ext" "backup_folder ext' = backup_folder ext"
    and p: "pending_submissions ext' Precommit =
       (if clear_precommits_submission_on_new_block (config ext) then []
        else pending_submissions ext Precommit)"
     "pending_submissions ext' Benchmark =
       filter (\<lambda>s. \<exists>b. benchmark_id (request s) = Inr b \<and> b \<in> dom precommits \<and> b \<notin> benchmarks)
         (pending_submissions ext Benchmark)"
     "pending_submissions ext' Proof =
       filter (\<lambda>s. \<exists>b. benchmark_id (request s) = Inr b \<and> b \<in> dom precommits \<and> b \<notin> proofs)
         (pending_submissions ext Proof)"
    by auto
  have sub: "set (pending_submissions ext' st) \<subseteq> set (pending_submissions ext st)" for st
    using p by (cases st) auto
  from r c well_typed_subset[OF wt sub] retries_below_subset[of N ext ext', OF _ sub]
  show ?thesis by auto
qed

lemma step_preserves:
  assumes wt: "well_typed ext"
  shows "\<exists>ext' fs'. step fd (ext, fs) i = Inr (ext', fs') \<and> well_typed ext' \<and>
     config ext' = config ext \<and> backup_folder ext' = backup_folder ext \<and>
     (max_retries (config ext) = Some N \<longrightarrow> 0 < N \<longrightarrow> retries_below N ext \<longrightarrow> retries_below N ext')"
proof (cases i)
  case (PrecommitReady settings n)
  have "well_typed (append_pending ext Precommit (fresh (SubmitPrecommitRequest settings n)))"
    by (rule well_typed_append[OF wt]) (simp add: fresh_def)
  moreover have "0 < N \<Longrightarrow> retries_below N ext \<Longrightarrow>
      retries_below N (append_pending ext Precommit (fresh (SubmitPrecommitRequest settings n)))"
    by (rule retries_below_append) (simp_all add: fresh_def)
  ultimately show ?thesis using PrecommitReady
    by (auto simp: on_precommit_ready_def fresh_def append_pending_frame)
next
  case (BenchmarkReady b root nonces)
  have "well_typed (append_pending ext Benchmark (fresh (SubmitBenchmarkRequest b root nonces)))"
    by (rule well_typed_append[OF wt]) (simp add: fresh_def)
  moreover have "0 < N \<Longrightarrow> retries_below N ext \<Longrightarrow>
      retries_below N (append_pending ext Benchmark (fresh (SubmitBenchmarkRequest b root nonces)))"
    by (rule retries_below_append) (simp_all add: fresh_def)
  ultimately show ?thesis using BenchmarkReady wt
    by (auto simp: on_benchmark_ready_typed append_pending_frame simp del: os_path_join.simps)
next
  case (ProofReady b proofs)
  have "well_typed (append_pending ext Proof (fresh (SubmitProofRequest b proofs)))"
    by (rule well_typed_append[OF wt]) (simp add: fresh_def)
  moreover have "0 < N \<Longrightarrow> retries_below N ext \<Longrightarrow>
      retries_below N (append_pending ext Proof (fresh (SubmitProofRequest b proofs)))"
    by (rule retries_below_append) (simp_all add: fresh_def)
  ultimately show ?thesis using ProofReady wt
    by (auto simp: on_proof_ready_typed append_pending_frame simp del: os_path_join.simps)
next
  case (NewBlock block precommits benchmarks proofs)
  from on_new_block_preserves[OF wt, of fs block precommits benchmarks proofs N]
  show ?thesis using NewBlock by auto
next
  case (Update now post)
  from on_update_preserves[OF wt, of fd now post N]
  show ?thesis using Update by auto
qed

lemma run_preserves:
  assumes "well_typed ext"
  shows "\<exists>ext' fs'. run fd (ext, fs) inputs = Inr (ext', fs') \<and> well_typed ext' \<and>
     config ext' = config ext \<and> backup_folder ext' = backup_folder ext \<and>
     (max_retries (config ext) = Some N \<longrightarrow> 0 < N \<longrightarrow> retries_below N ext \<longrightarrow> retries_below N ext')"
  using assms
proof (induction inputs arbitrary: ext fs)
  case Nil
  then show ?case by simp
next
  case (Cons i inputs)
  from step_preserves[OF Cons.prems, of fd fs i N]
  obtain e1 f1 where s: "step fd (ext, fs) i = Inr (e1, f1)" and w: "well_typed e1"
    and c: "config e1 = config ext" "backup_folder e1 = backup_folder ext"
    and r: "max_retries (config ext) = Some N \<longrightarrow> 0 < N \<longrightarrow> retries_below N ext \<longrightarrow> retries_below N e1"
    by blast
  from Cons.IH[OF w, of f1] obtain e2 f2 where s2: "run fd (e1, f1) inputs = Inr (e2, f2)"
    and w2: "well_typed e2" and c2: "config e2 = config e1" "backup_folder e2 = backup_folder e1"
    and r2: "max_retries (config e1) = Some N \<longrightarrow> 0 < N \<longrightarrow> retries_below N e1 \<longrightarrow> retries_below N e2"
    by blast
  have "run fd (ext, fs) (i # inputs) = Inr (e2, f2)" using s s2 by simp
  with w2 c c2 r r2 show ?case by auto
qed

subsection \<open>Restoration\<close>

lemma restore_request_type:
  assumes "restore_request fd st d = Inr r" "st \<noteq> Precommit"
  shows "request_submission_type r = Inr st"
  using assms by (cases st) (auto simp: restore_request_def split: sum.splits)

lemma restore_files_skips:
  "restore_files fd fs st path files acc =
   restore_files fd fs st path (filter (\<lambda>f. endswith f ''.json'') files) acc"
proof (induction files arbitrary: acc)
  case Nil
  then show ?case by simp
next
  case (Cons f files)
  obtain ext opened where acc: "acc = (ext, opened)" by (cases acc)
  show ?case
  proof (cases "endswith f ''.json''")
    case False
    then show ?thesis using Cons.IH[of acc] by (simp add: acc)
  next
    case True
    then show ?thesis using Cons.IH
      by (simp add: acc Let_def split: option.splits sum.splits del: os_path_join.simps)
  qed
qed

lemma restore_files_spec:
  assumes "restore_files fd fs st path files (ext, opened) = Inr (ext', opened')"
  shows "config ext' = config ext \<and> backup_folder ext' = backup_folder ext \<and>
    (\<forall>st'. st' \<noteq> st \<longrightarrow> pending_submissions ext' st' = pending_submissions ext st') \<and>
    opened' = opened @ map (\<lambda>f. os_path_join path [f]) (filter (\<lambda>f. endswith f ''.json'') files) \<and>
    (\<exists>new. pending_submissions ext' st = pending_submissions ext st @ new \<and>
       list_all2 (restored fd fs st path) new (filter (\<lambda>f. endswith f ''.json'') files))"
  using assms
proof (induction files arbitrary: ext opened)
  case Nil
  then show ?case by simp
next
  case (Cons fname files)
  show ?case
  proof (cases "endswith fname ''.json''")
    case False
    then have "restore_files fd fs st path files (ext, opened) = Inr (ext', opened')"
      using Cons.prems by simp
    from Cons.IH[OF this] show ?thesis using False by simp
  next
    case True
    define file_path where "file_path = os_path_join path [fname]"
    from Cons.prems True obtain d where d: "open_read fs file_path = Some d"
      by (cases "open_read fs file_path") (simp_all add: file_path_def Let_def del: os_path_join.simps)
    from Cons.prems True d obtain r where r: "restore_request fd st d = Inr r"
      by (cases "restore_request fd st d") (simp_all add: file_path_def Let_def del: os_path_join.simps)
    define s where "s = \<lparr>last_retry_time = 0, retries = 0, request = r\<rparr>"
    have rec: "restore_files fd fs st path files (append_pending ext st s, opened @ [file_path]) =
        Inr (ext', opened')"
      using Cons.prems True d r by (simp add: file_path_def s_def Let_def del: os_path_join.simps)
    note ih = Cons.IH[OF rec]
    from ih obtain new where new: "pending_submissions ext' st = pending_submissions (append_pending ext st s) st @ new"
      and l2: "list_all2 (restored fd fs st path) new (filter (\<lambda>f. endswith f ''.json'') files)"
      by blast
    have rs: "restored fd fs st path s fname"
      using d r by (simp add: restored_def s_def file_path_def del: os_path_join.simps)
    have a: "pending_submissions ext' st = pending_submissions ext st @ (s # new)"
      using new by (simp add: append_pending_def)
    have b: "list_all2 (restored fd fs st path) (s # new) (filter (\<lambda>f. endswith f ''.json'') (fname # files))"
      using l2 rs True by simp
    have c: "config ext' = config ext" "backup_folder ext' = backup_folder ext"
      "\<forall>st'. st' \<noteq> st \<longrightarrow> pending_submissions ext' st' = pending_submissions ext st'"
      using ih by (simp_all add: append_pending_def)
    have o: "opened' = opened @ map (\<lambda>f. os_path_join path [f]) (filter (\<lambda>f. endswith f ''.json'') (fname # files))"
      using ih True by (simp add: file_path_def del: os_path_join.simps)
    from a b c o show ?thesis by blast
  qed
qed

lemma restore_pending_submissions_spec:
  assumes "restore_pending_submissions fd fs ext = Inr (ext', opened)"
  shows "config ext' = config ext \<and> backup_folder ext' = backup_folder ext \<and>
    pending_submissions ext' Precommit = pending_submissions ext Precommit \<and>
    opened =
      map (\<lambda>f. os_path_join (os_path_join (backup_folder ext) [''benchmark'']) [f])
        (json_files fs (os_path_join (backup_folder ext) [''benchmark''])) @
      map (\<lambda>f. os_path_join (os_path_join (backup_folder ext) [''proof'']) [f])
        (json_files fs (os_path_join (backup_folder ext) [''proof''])) \<and>
    (\<exists>new. pending_submissions ext' Benchmark = pending_submissions ext Benchmark @ new \<and>
       list_all2 (restored fd fs Benchmark (os_path_join (backup_folder ext) [''benchmark''])) new
         (json_files fs (os_path_join (backup_folder ext) [''benchmark'']))) \<and>
    (\<exists>new. pending_submissions ext' Proof = pending_submissions ext Proof @ new \<and>
       list_all2 (restored fd fs Proof (os_path_join (backup_folder ext) [''proof''])) new
         (json_files fs (os_path_join (backup_folder ext) [''proof''])))"
proof -
  define bdir where "bdir = os_path_join (backup_folder ext) [''benchmark'']"
  define pdir where "pdir = os_path_join (backup_folder ext) [''proof'']"
  from assms obtain e1 o1 where
    r1: "restore_files fd fs Benchmark bdir (os_listdir fs bdir) (ext, []) = Inr (e1, o1)"
    by (cases "restore_files fd fs Benchmark bdir (os_listdir fs bdir) (ext, [])")
       (auto simp: restore_pending_submissions_def bdir_def Let_def simp del: os_path_join.simps)
  note s1 = restore_files_spec[OF r1]
  have bf1: "backup_folder e1 = backup_folder ext" using s1 by simp
  from assms r1 have
    r2: "restore_files fd fs Proof pdir (os_listdir fs pdir) (e1, o1) = Inr (ext', opened)"
    by (cases "restore_files fd fs Proof pdir (os_listdir fs pdir) (e1, o1)")
       (auto simp: restore_pending_submissions_def bdir_def pdir_def bf1 Let_def
             simp del: os_path_join.simps)
  note s2 = restore_files_spec[OF r2]
  have c: "config ext' = config ext" "backup_folder ext' = backup_folder ext"
    "pending_submissions ext' Precommit = pending_submissions ext Precommit"
    using s1 s2 by simp_all
  have o: "opened = map (\<lambda>f. os_path_join bdir [f]) (json_files fs bdir) @
      map (\<lambda>f. os_path_join pdir [f]) (json_files fs pdir)"
    using s1 s2 by (simp add: json_files_def del: os_path_join.simps)
  from s1 obtain new1 where n1: "pending_submissions e1 Benchmark = pending_submissions ext Benchmark @ new1"
    "list_all2 (restored fd fs Benchmark bdir) new1 (json_files fs bdir)"
    unfolding json_files_def by blast
  from s2 obtain new2 where n2: "pending_submissions ext' Proof = pending_submissions e1 Proof @ new2"
    "list_all2 (restored fd fs Proof pdir) new2 (json_files fs pdir)"
    unfolding json_files_def by blast
  have b: "pending_submissions ext' Benchmark = pending_submissions ext Benchmark @ new1"
    using n1 s2 by simp
  have p: "pending_submissions ext' Proof = pending_submissions ext Proof @ new2"
    using n2 s1 by simp
  from c o b p n1(2) n2(2) show ?thesis
    unfolding bdir_def[symmetric] pdir_def[symmetric] by blast
qed

lemma os_path_join_two:
  "os_path_join folder [t, n] = os_path_join (os_path_join folder [t]) [n]"
  by simp

lemma entry_name_join:
  assumes "CHR ''/'' \<notin> set n" "n \<noteq> []"
  shows "entry_name dir (os_path_join dir [n]) = Some n"
proof -
  from assms have ns: "\<not> startswith n ''/''"
    by (cases n) (auto simp: startswith_def)
  define pre where "pre = (if dir = [] \<or> endswith dir ''/'' then dir else dir @ ''/'')"
  have j: "os_path_join dir [n] = pre @ n"
    using ns by (simp add: pre_def)
  have "entry_name dir (pre @ n) = Some n"
    using assms unfolding entry_name_def pre_def[symmetric] by (simp add: Let_def)
  then show ?thesis using j by simp
qed

lemma endswith_append: "endswith (b @ suf) suf"
  by (simp add: endswith_def)

lemma os_listdir_open_write:
  assumes "CHR ''/'' \<notin> set n" "n \<noteq> []"
  shows "n \<in> set (os_listdir (open_write fs (os_path_join dir [n]) d) dir)"
proof -
  define p where "p = os_path_join dir [n]"
  have "map_of (AList.update p d fs) p = Some d" by (simp add: update_conv')
  then have "(p, d) \<in> set (AList.update p d fs)" by (rule map_of_SomeD)
  moreover have "entry_name dir p = Some n" unfolding p_def by (rule entry_name_join[OF assms])
  ultimately have "n \<in> set (List.map_filter (\<lambda>(p, d). entry_name dir p) (AList.update p d fs))"
    unfolding map_filter_def by (auto simp: image_iff intro!: bexI[of _ "(p, d)"])
  then show ?thesis by (simp add: os_listdir_def open_write_def p_def del: os_path_join.simps)
qed

lemma open_read_open_write: "open_read (open_write fs p d) p = Some d"
  by (simp add: open_read_def open_write_def update_conv')

lemma list_all2_memD:
  assumes "list_all2 P xs ys" "y \<in> set ys"
  shows "\<exists>x\<in>set xs. P x y"
  using assms by (induction rule: list_all2_induct) auto

lemma restored_after_write:
  assumes l2: "list_all2 (restored fd (open_write fs (os_path_join dir [b @ ''.json'']) d) st dir) new
        (json_files (open_write fs (os_path_join dir [b @ ''.json'']) d) dir)"
    and b: "CHR ''/'' \<notin> set b"
    and rt: "restore_request fd st d = Inr r"
  shows "\<exists>s\<in>set new. request s = r \<and> retries s = 0 \<and> last_retry_time s = 0"
proof -
  have n: "CHR ''/'' \<notin> set (b @ ''.json'')" "b @ ''.json'' \<noteq> []" using b by simp_all
  have "b @ ''.json'' \<in> set (json_files (open_write fs (os_path_join dir [b @ ''.json'']) d) dir)"
    unfolding json_files_def using os_listdir_open_write[OF n] endswith_append
    by (simp del: os_path_join.simps)
  from list_all2_memD[OF l2 this] obtain s where s: "s \<in> set new"
    and rs: "restored fd (open_write fs (os_path_join dir [b @ ''.json'']) d) st dir s (b @ ''.json'')"
    by blast
  from rs have "restore_request fd st d = Inr (request s)" "retries s = 0" "last_retry_time s = 0"
    unfolding restored_def open_read_open_write by simp_all
  with rt s show ?thesis by auto
qed

lemma on_benchmark_ready_accepted:
  assumes "on_benchmark_ready fd (ext, fs) b root nonces = Inr ((ext1, fs1), [])"
  shows "fs1 = open_write fs (os_path_join (os_path_join (backup_folder ext) [''benchmark'']) [b @ ''.json''])
            (to_dict fd (SubmitBenchmarkRequest b root nonces)) \<and>
         ext1 = append_pending ext Benchmark (fresh (SubmitBenchmarkRequest b root nonces)) \<and>
         any_benchmark_id b (pending_submissions ext Benchmark) = Inr False"
  using assms unfolding on_benchmark_ready_def os_path_join_two[symmetric]
  by (auto simp: Let_def fresh_def split: sum.splits if_splits simp del: os_path_join.simps)

lemma on_proof_ready_accepted:
  assumes "on_proof_ready fd (ext, fs) b proofs = Inr ((ext1, fs1), [])"
  shows "fs1 = open_write fs (os_path_join (os_path_join (backup_folder ext) [''proof'']) [b @ ''.json''])
            (to_dict fd (SubmitProofRequest b proofs)) \<and>
         ext1 = append_pending ext Proof (fresh (SubmitProofRequest b proofs)) \<and>
         any_benchmark_id b (pending_submissions ext Proof) = Inr False"
  using assms unfolding on_proof_ready_def os_path_join_two[symmetric]
  by (auto simp: Let_def fresh_def split: sum.splits if_splits simp del: os_path_join.simps)

lemma restored_typed:
  assumes "list_all2 (restored fd fs st path) new files" "st \<noteq> Precommit"
  shows "\<forall>s\<in>set new. request_submission_type (request s) = Inr st \<and> retries s = 0 \<and>
     last_retry_time s = 0"
proof
  fix s assume "s \<in> set new"
  with assms(1) obtain f where "restored fd fs st path s f"
    by (auto simp: list_all2_conv_all_nth in_set_conv_nth)
  then show "request_submission_type (request s) = Inr st \<and> retries s = 0 \<and> last_retry_time s = 0"
    using restore_request_type[OF _ assms(2)] by (auto simp: restored_def)
qed

lemma Extension_init_spec:
  assumes "Extension_init fd fs folder cfg = Inr (ext, opened)"
  shows "well_typed ext \<and> config ext = cfg \<and> backup_folder ext = folder \<and>
     (\<forall>st. \<forall>s\<in>set (pending_submissions ext st). retries s = 0 \<and> last_retry_time s = 0)"
proof -
  define e0 :: "('a, 'b, 'c) extension" where
    "e0 = \<lparr>backup_folder = folder, config = cfg, pending_submissions = (\<lambda>_. [])\<rparr>"
  from assms have r: "restore_pending_submissions fd fs e0 = Inr (ext, opened)"
    by (simp add: Extension_init_def e0_def)
  note s = restore_pending_submissions_spec[OF r]
  from s have c: "config ext = cfg" "backup_folder ext = folder"
    and p: "pending_submissions ext Precommit = []"
    by (simp_all add: e0_def)
  from s obtain nb where nb: "pending_submissions ext Benchmark = nb"
    "list_all2 (restored fd fs Benchmark (os_path_join (backup_folder e0) [''benchmark''])) nb
       (json_files fs (os_path_join (backup_folder e0) [''benchmark'']))"
    by (auto simp: e0_def simp del: os_path_join.simps)
  from s obtain np where np: "pending_submissions ext Proof = np"
    "list_all2 (restored fd fs Proof (os_path_join (backup_folder e0) [''proof''])) np
       (json_files fs (os_path_join (backup_folder e0) [''proof'']))"
    by (auto simp: e0_def simp del: os_path_join.simps)
  note tb = restored_typed[OF nb(2)] and tp = restored_typed[OF np(2)]
  have all: "\<forall>s\<in>set (pending_submissions ext st).
      request_submission_type (request s) = Inr st \<and> retries s = 0 \<and> last_retry_time s = 0" for st
    using p nb(1) np(1) tb tp by (cases st) simp_all
  have "well_typed ext" unfolding well_typed_def queue_typed_def using all by blast
  moreover have "\<forall>st. \<forall>s\<in>set (pending_submissions ext st). retries s = 0 \<and> last_retry_time s = 0"
    using all by blast
  ultimately show ?thesis using c by blast
qed

lemma restore_files_returns:
  assumes "list_all (decodes fd fs st path) (filter (\<lambda>f. endswith f ''.json'') files)"
  shows "\<exists>r. restore_files fd fs st path files acc = Inr r"
  using assms
proof (induction files arbitrary: acc)
  case Nil
  then show ?case by simp
next
  case (Cons f files)
  obtain ext opened where acc: "acc = (ext, opened)" by (cases acc)
  show ?case
  proof (cases "endswith f ''.json''")
    case False
    then show ?thesis using Cons.IH[of acc] Cons.prems by (simp add: acc)
  next
    case True
    with Cons.prems have d: "decodes fd fs st path f"
      and rest: "list_all (decodes fd fs st path) (filter (\<lambda>f. endswith f ''.json'') files)"
      by simp_all
    from d obtain dd where dd: "open_read fs (os_path_join path [f]) = Some dd"
      unfolding decodes_def by (cases "open_read fs (os_path_join path [f])") simp_all
    from d dd obtain r where r: "restore_request fd st dd = Inr r"
      unfolding decodes_def by (cases "restore_request fd st dd") simp_all
    show ?thesis
      using Cons.IH[OF rest] True dd r
      by (simp add: acc Let_def del: os_path_join.simps)
  qed
qed

lemma Extension_init_returns:
  assumes "restorable fd fs folder"
  shows "\<exists>ext opened. Extension_init fd fs folder cfg = Inr (ext, opened)"
proof -
  define e0 :: "('a, 'b, 'c) extension" where
    "e0 = \<lparr>backup_folder = folder, config = cfg, pending_submissions = (\<lambda>_. [])\<rparr>"
  define bdir where "bdir = os_path_join folder [''benchmark'']"
  define pdir where "pdir = os_path_join folder [''proof'']"
  from assms have b: "list_all (decodes fd fs Benchmark bdir)
        (filter (\<lambda>f. endswith f ''.json'') (os_listdir fs bdir))"
    and p: "list_all (decodes fd fs Proof pdir)
        (filter (\<lambda>f. endswith f ''.json'') (os_listdir fs pdir))"
    by (simp_all add: restorable_def json_files_def bdir_def pdir_def del: os_path_join.simps)
  from restore_files_returns[OF b, of "(e0, [])"] obtain e1 o1 where
    r1: "restore_files fd fs Benchmark bdir (os_listdir fs bdir) (e0, []) = Inr (e1, o1)"
    by auto
  from restore_files_spec[OF r1] have bf: "backup_folder e1 = folder" by (simp add: e0_def)
  from restore_files_returns[OF p, of "(e1, o1)"] obtain e2 o2 where
    r2: "restore_files fd fs Proof pdir (os_listdir fs pdir) (e1, o1) = Inr (e2, o2)"
    by auto
  have "Extension_init fd fs folder cfg = Inr (e2, o2)"
    unfolding Extension_init_def restore_pending_submissions_def e0_def[symmetric]
    using r1 r2 bf
    by (simp add: bdir_def pdir_def Let_def e0_def del: os_path_join.simps)
  then show ?thesis by blast
qed

subsection \<open>The backup file of a removed submission\<close>

text \<open>
  Claim C1 says that reconciliation deletes the backup file of every submission it
  removes, the file \<^verbatim>\<open><benchmark_id>.json\<close> in the directory of its category.
  \<^verbatim>\<open>on_new_block\<close> builds the path it deletes from the backup folder and the file
  name alone, without the directory of the category that \<^verbatim>\<open>on_benchmark_ready\<close>,
  \<^verbatim>\<open>on_proof_ready\<close> and the restoration use. The theorem runs the code: the
  benchmark \<^verbatim>\<open>b1\<close> is accepted and its file written; a new block on which
  \<^verbatim>\<open>b1\<close> is not among the precommits removes it from the queue; the file is
  still there.
\<close>

theorem on_new_block_leaves_backup_file:
  "on_benchmark_ready example_fd (example_empty, []) ''b1'' ''r1'' {1} =
     Inr ((example_empty\<lparr>pending_submissions :=
            (\<lambda>_. [])(Benchmark := [fresh (SubmitBenchmarkRequest ''b1'' ''r1'' {1})])\<rparr>,
           [(''backup/benchmark/b1.json'', SubmitBenchmarkRequest ''b1'' ''r1'' {1})]), []) \<and>
   on_new_block
     (example_empty\<lparr>pending_submissions :=
        (\<lambda>_. [])(Benchmark := [fresh (SubmitBenchmarkRequest ''b1'' ''r1'' {1})])\<rparr>,
      [(''backup/benchmark/b1.json'', SubmitBenchmarkRequest ''b1'' ''r1'' {1})]) ()
     (Map.empty :: string \<rightharpoonup> unit) [''benchmarks'' \<mapsto> {}, ''proofs'' \<mapsto> {}] =
     Inr (example_empty,
          [(''backup/benchmark/b1.json'', SubmitBenchmarkRequest ''b1'' ''r1'' {1})]) \<and>
   pending_submissions example_empty Benchmark = [] \<and>
   os_path_exists [(''backup/benchmark/b1.json'', SubmitBenchmarkRequest ''b1'' ''r1'' {1})]
     ''backup/benchmark/b1.json''"
  using ex_ready ex_new_block by (simp add: example_empty_def os_path_exists_def)

subsection \<open>Reconciliation removes exactly the expired and the confirmed\<close>

text \<open>
  Claim C2. For a \<^verbatim>\<open>new_block\<close> event that carries both confirmed containers, on
  queues whose items hold requests of their own class, the handler returns, and the
  benchmark (resp. proof) queue afterwards is the queue before restricted, in the same
  order, to the items whose \<^verbatim>\<open>benchmark_id\<close> is a key of \<^verbatim>\<open>precommits\<close> and
  is not in the benchmarks (resp. proofs) container: an item is removed if and only if
  its id is absent from the precommits or is confirmed.
\<close>

theorem on_new_block_queues:
  assumes "well_typed ext"
    and "kwargs ''benchmarks'' = Some benchmarks"
    and "kwargs ''proofs'' = Some proofs"
  shows "\<exists>ext' fs'. on_new_block (ext, fs) block precommits kwargs = Inr (ext', fs') \<and>
     pending_submissions ext' Benchmark =
       filter (\<lambda>s. \<exists>b. benchmark_id (request s) = Inr b \<and> b \<in> dom precommits \<and> b \<notin> benchmarks)
         (pending_submissions ext Benchmark) \<and>
     pending_submissions ext' Proof =
       filter (\<lambda>s. \<exists>b. benchmark_id (request s) = Inr b \<and> b \<in> dom precommits \<and> b \<notin> proofs)
         (pending_submissions ext Proof)"
  using on_new_block_typed [OF assms, of fs block precommits] by blast

theorem on_new_block_queues_witness:
  "\<exists>ext' fs'.
     on_new_block (example_ext, [] :: (string \<times> (unit, string, nat) request) list) ()
       [''b1'' \<mapsto> (), ''b3'' \<mapsto> ()] [''benchmarks'' \<mapsto> {''b3''}, ''proofs'' \<mapsto> {}] = Inr (ext', fs') \<and>
     pending_submissions ext' Benchmark = [fresh (SubmitBenchmarkRequest ''b1'' ''r1'' {1})] \<and>
     pending_submissions ext' Proof = [fresh (SubmitProofRequest ''b1'' [1])]"
  using on_new_block_queues [OF example_ext_typed,
      of "[''benchmarks'' \<mapsto> {''b3''}, ''proofs'' \<mapsto> {}]" "{''b3''}" "{}" "[]" "()" "[''b1'' \<mapsto> (), ''b3'' \<mapsto> ()]"]
  by (simp add: example_ext_def fresh_def)

subsection \<open>Retry after a server error\<close>

text \<open>
  Claim C3, as amended. For an attempt that receives a status other than 200: the item is
  appended to the tail of the queue of its category, with \<^verbatim>\<open>retries\<close> one higher
  and \<^verbatim>\<open>last_retry_time\<close> the current time, if and only if the status is in
  500..599 and \<^verbatim>\<open>max_retries\<close> is unset or above the incremented count; otherwise
  no queue changes. With \<^verbatim>\<open>max_retries = N\<close> and \<open>N\<close> at least 1, an item that
  starts with no retries and always receives a status in 500..599 is put back exactly
  \<open>N - 1\<close> times and then dropped.
\<close>

theorem submit_retry:
  assumes "request_submission_type (request s) = Inr st"
    and "resp_status resp \<noteq> 200"
  shows "(\<exists>ext' events. submit fd ext s resp now = Inr (ext', events) \<and>
            config ext' = config ext \<and> backup_folder ext' = backup_folder ext \<and>
            pending_submissions ext' =
              (if 500 \<le> resp_status resp \<and> resp_status resp \<le> 599 \<and>
                  (case max_retries (config ext) of None \<Rightarrow> True | Some m \<Rightarrow> retries s + 1 < m)
               then (pending_submissions ext)
                      (st := pending_submissions ext st @
                         [s\<lparr>retries := retries s + 1, last_retry_time := now\<rparr>])
               else pending_submissions ext)) \<and>
         (500 \<le> resp_status resp \<and> resp_status resp \<le> 599 \<and> retries s = 0 \<and>
          max_retries (config ext) = Some N \<and> 1 \<le> N \<and> nat N \<le> fuel \<longrightarrow>
            map_option int (count_requeues fd ext resp now fuel s) = Some (N - 1))"
proof (intro conjI impI)
  show "\<exists>ext' events. submit fd ext s resp now = Inr (ext', events) \<and>
            config ext' = config ext \<and> backup_folder ext' = backup_folder ext \<and>
            pending_submissions ext' =
              (if 500 \<le> resp_status resp \<and> resp_status resp \<le> 599 \<and>
                  (case max_retries (config ext) of None \<Rightarrow> True | Some m \<Rightarrow> retries s + 1 < m)
               then (pending_submissions ext)
                      (st := pending_submissions ext st @
                         [s\<lparr>retries := retries s + 1, last_retry_time := now\<rparr>])
               else pending_submissions ext)"
    using assms by (simp add: submit_def Let_def may_retry_def append_pending_def)
next
  assume a: "500 \<le> resp_status resp \<and> resp_status resp \<le> 599 \<and> retries s = 0 \<and>
          max_retries (config ext) = Some N \<and> 1 \<le> N \<and> nat N \<le> fuel"
  then have "count_requeues fd ext resp now fuel s = Some (nat (N - 1 - retries s))"
    using assms(1) by (intro count_requeues_bound[where st = st]) auto
  then show "map_option int (count_requeues fd ext resp now fuel s) = Some (N - 1)"
    using a by simp
qed

theorem submit_retry_witness:
  "(\<exists>ext' events.
      submit example_fd example_ext (fresh (SubmitBenchmarkRequest ''b4'' ''r4'' {4}))
        \<lparr>resp_status = 503, resp_text = ''unavailable''\<rparr> 7 = Inr (ext', events) \<and>
      pending_submissions ext' Benchmark =
        pending_submissions example_ext Benchmark @
          [\<lparr>last_retry_time = 7, retries = 1,
            request = SubmitBenchmarkRequest ''b4'' ''r4'' {4}\<rparr>]) \<and>
   map_option int
     (count_requeues example_fd example_ext
        \<lparr>resp_status = 503, resp_text = ''unavailable''\<rparr> 7 5
        (fresh (SubmitBenchmarkRequest ''b4'' ''r4'' {4}))) = Some 2"
proof -
  let ?s = "fresh (SubmitBenchmarkRequest ''b4'' ''r4'' {4}) :: (unit, string, nat) pending_submission"
  let ?r = "\<lparr>resp_status = 503, resp_text = ''unavailable''\<rparr>"
  have h1: "request_submission_type (request ?s) = Inr Benchmark"
    by (simp add: fresh_def)
  have h2: "resp_status ?r \<noteq> 200"
    by simp
  note th = submit_retry [OF h1 h2, of example_fd example_ext 7 3 5]
  from th obtain ext' events where
    e: "submit example_fd example_ext ?s ?r 7 = Inr (ext', events)"
    and p: "pending_submissions ext' =
       (if 500 \<le> resp_status ?r \<and> resp_status ?r \<le> 599 \<and>
           (case max_retries (config example_ext) of None \<Rightarrow> True
            | Some m \<Rightarrow> retries ?s + 1 < m)
        then (pending_submissions example_ext)
               (Benchmark := pending_submissions example_ext Benchmark @
                  [?s\<lparr>retries := retries ?s + 1, last_retry_time := 7\<rparr>])
        else pending_submissions example_ext)"
    by (elim conjE exE) (rule that; assumption)
  have q: "pending_submissions ext' Benchmark =
        pending_submissions example_ext Benchmark @
          [\<lparr>last_retry_time = 7, retries = 1,
            request = SubmitBenchmarkRequest ''b4'' ''r4'' {4}\<rparr>]"
    unfolding p by (simp add: fresh_def example_ext_def example_config_def)
  have c: "map_option int (count_requeues example_fd example_ext ?r 7 5 ?s) = Some 2"
    using th [THEN conjunct2] by (simp add: fresh_def example_ext_def example_config_def)
  from e q c show ?thesis by blast
qed

text \<open>
  The claim as it was stated fails for \<^verbatim>\<open>max_retries = 0\<close>: the item is dropped at
  its first failure, so it is put back 0 times, not \<open>0 - 1\<close> times.
\<close>

theorem submit_retry_counterexample:
  "max_retries (config (example_ext\<lparr>config := example_config\<lparr>max_retries := Some 0\<rparr>\<rparr>)) = Some 0 \<and>
   count_requeues example_fd
     (example_ext\<lparr>config := example_config\<lparr>max_retries := Some 0\<rparr>\<rparr>)
     \<lparr>resp_status = 503, resp_text = ''unavailable''\<rparr> 7 5
     (fresh (SubmitBenchmarkRequest ''b4'' ''r4'' {4})) = Some 0 \<and>
   map_option int
     (count_requeues example_fd
        (example_ext\<lparr>config := example_config\<lparr>max_retries := Some 0\<rparr>\<rparr>)
        \<lparr>resp_status = 503, resp_text = ''unavailable''\<rparr> 7 5
        (fresh (SubmitBenchmarkRequest ''b4'' ''r4'' {4}))) \<noteq> Some (0 - 1)"
  by (simp add: submit_def may_retry_def fresh_def example_fd_def example_ext_def numeral_eq_Suc)

subsection \<open>One item per queue and tick, and only after the delay\<close>

text \<open>
  Claim C4. The first phase of \<^verbatim>\<open>on_update\<close> takes the submissions that the tick
  attempts out of the queues. From each queue it takes at most one item; the queue keeps
  all its other items; the item taken has the least \<^verbatim>\<open>last_retry_time\<close> of its
  queue; and its \<^verbatim>\<open>last_retry_time\<close> plus the configured delay is at most the
  time of the tick. So an item whose \<^verbatim>\<open>last_retry_time\<close> is \<open>T\<close> is not attempted
  at a tick before \<open>T + D\<close>.
\<close>

theorem on_update_dequeue_spec:
  assumes "on_update_dequeue now ext = (ext', submissions)"
  shows "\<exists>taken. submissions = taken Precommit @ taken Benchmark @ taken Proof \<and>
     (\<forall>st. length (taken st) \<le> 1 \<and>
        mset (pending_submissions ext st) = mset (taken st) + mset (pending_submissions ext' st) \<and>
        (\<forall>s\<in>set (taken st).
           (\<forall>x\<in>set (pending_submissions ext st). last_retry_time s \<le> last_retry_time x) \<and>
           last_retry_time s + ms_delay_between_retries (config ext) \<le> now))"
proof -
  from on_update_dequeue_rounds [OF assms] obtain taken where
    subs: "submissions = taken Precommit @ taken Benchmark @ taken Proof"
    and all: "\<And>st. round_spec now ext ext' st (taken st)"
    by (elim exE conjE) (rule that, assumption, erule spec)
  show ?thesis
  proof (rule exI [of _ taken], intro conjI allI)
    show "submissions = taken Precommit @ taken Benchmark @ taken Proof" by (rule subs)
  next
    fix st show "length (taken st) \<le> 1"
      using all [of st] by (simp add: round_spec_def)
  next
    fix st show "mset (pending_submissions ext st) = mset (taken st) + mset (pending_submissions ext' st)"
      using all [of st] by (simp add: round_spec_def)
  next
    fix st show "\<forall>s\<in>set (taken st).
           (\<forall>x\<in>set (pending_submissions ext st). last_retry_time s \<le> last_retry_time x) \<and>
           last_retry_time s + ms_delay_between_retries (config ext) \<le> now"
      using all [of st] unfolding round_spec_def by (elim conjE)
  qed
qed

theorem on_update_dequeue_spec_witness:
  "on_update_dequeue 5000 example_ext =
     (example_ext\<lparr>pending_submissions :=
        (\<lambda>_. [])(Benchmark :=
                   [fresh (SubmitBenchmarkRequest ''b2'' ''r2'' {2}),
                    fresh (SubmitBenchmarkRequest ''b3'' ''r3'' {3})],
                 Proof := [fresh (SubmitProofRequest ''b2'' [2])])\<rparr>,
      [fresh (SubmitBenchmarkRequest ''b1'' ''r1'' {1}), fresh (SubmitProofRequest ''b1'' [1])]) \<and>
   (\<exists>taken :: submission_type \<Rightarrow> (unit, string, nat) pending_submission list.
      [fresh (SubmitBenchmarkRequest ''b1'' ''r1'' {1}), fresh (SubmitProofRequest ''b1'' [1])] =
        taken Precommit @ taken Benchmark @ taken Proof \<and>
      (\<forall>st. length (taken st) \<le> 1 \<and>
         (\<forall>s\<in>set (taken st).
            last_retry_time s + ms_delay_between_retries (config example_ext) \<le> 5000)))"
proof -
  have h: "on_update_dequeue 5000 example_ext =
     (example_ext\<lparr>pending_submissions :=
        (\<lambda>_. [])(Benchmark :=
                   [fresh (SubmitBenchmarkRequest ''b2'' ''r2'' {2}),
                    fresh (SubmitBenchmarkRequest ''b3'' ''r3'' {3})],
                 Proof := [fresh (SubmitProofRequest ''b2'' [2])])\<rparr>,
      [fresh (SubmitBenchmarkRequest ''b1'' ''r1'' {1}), fresh (SubmitProofRequest ''b1'' [1])])"
    by (simp add: on_update_dequeue_def on_update_type_def example_ext_def example_config_def
        fresh_def)
  from on_update_dequeue_spec [OF h] obtain taken where
    t: "[fresh (SubmitBenchmarkRequest ''b1'' ''r1'' {1}), fresh (SubmitProofRequest ''b1'' [1])] =
        taken Precommit @ taken Benchmark @ taken Proof"
    and a: "\<And>st. length (taken st) \<le> 1 \<and>
        mset (pending_submissions example_ext st) =
          mset (taken st) +
          mset (pending_submissions
            (example_ext\<lparr>pending_submissions :=
              (\<lambda>_. [])(Benchmark :=
                   [fresh (SubmitBenchmarkRequest ''b2'' ''r2'' {2}),
                    fresh (SubmitBenchmarkRequest ''b3'' ''r3'' {3})],
                 Proof := [fresh (SubmitProofRequest ''b2'' [2])])\<rparr>) st) \<and>
        (\<forall>s\<in>set (taken st).
           (\<forall>x\<in>set (pending_submissions example_ext st). last_retry_time s \<le> last_retry_time x) \<and>
           last_retry_time s + ms_delay_between_retries (config example_ext) \<le> 5000)"
    by (elim exE conjE) (rule that, assumption, erule spec)
  have b: "\<forall>st. length (taken st) \<le> 1 \<and>
         (\<forall>s\<in>set (taken st).
            last_retry_time s + ms_delay_between_retries (config example_ext) \<le> 5000)"
  proof
    fix st
    from a [of st] show "length (taken st) \<le> 1 \<and>
         (\<forall>s\<in>set (taken st).
            last_retry_time s + ms_delay_between_retries (config example_ext) \<le> 5000)"
      by (elim conjE) (rule conjI, assumption, rule ballI, drule (1) bspec, erule conjunct2)
  qed
  show ?thesis
  proof (rule conjI)
    show "on_update_dequeue 5000 example_ext =
     (example_ext\<lparr>pending_submissions :=
        (\<lambda>_. [])(Benchmark :=
                   [fresh (SubmitBenchmarkRequest ''b2'' ''r2'' {2}),
                    fresh (SubmitBenchmarkRequest ''b3'' ''r3'' {3})],
                 Proof := [fresh (SubmitProofRequest ''b2'' [2])])\<rparr>,
      [fresh (SubmitBenchmarkRequest ''b1'' ''r1'' {1}), fresh (SubmitProofRequest ''b1'' [1])])"
      by (rule h)
  next
    from t b show "\<exists>taken :: submission_type \<Rightarrow> (unit, string, nat) pending_submission list.
      [fresh (SubmitBenchmarkRequest ''b1'' ''r1'' {1}), fresh (SubmitProofRequest ''b1'' [1])] =
        taken Precommit @ taken Benchmark @ taken Proof \<and>
      (\<forall>st. length (taken st) \<le> 1 \<and>
         (\<forall>s\<in>set (taken st).
            last_retry_time s + ms_delay_between_retries (config example_ext) \<le> 5000))"
      by (rule_tac x = taken in exI) (rule conjI)
  qed
qed

subsection \<open>No two queued submissions with the same id\<close>

text \<open>
  Claim C5. From queues whose items hold requests of their own class and have pairwise
  different ids, every sequence of \<^verbatim>\<open>benchmark_ready\<close> and
  \<^verbatim>\<open>proof_ready\<close> events runs without an exception and leaves the ids of the
  benchmark queue pairwise different, and those of the proof queue; and an event whose id
  is already in the queue of its category returns the extension and the file system as
  they were, with one warning.
\<close>

theorem ready_events_no_duplicates:
  assumes "well_typed ext"
    and "distinct (pending_ids ext Benchmark)" and "distinct (pending_ids ext Proof)"
    and "\<forall>i\<in>set inputs. is_ready i"
  shows "(\<exists>ext' fs'. run fd (ext, fs) inputs = Inr (ext', fs') \<and>
            distinct (pending_ids ext' Benchmark) \<and> distinct (pending_ids ext' Proof)) \<and>
         (Inr b \<in> set (pending_ids ext Benchmark) \<longrightarrow>
            on_benchmark_ready fd (ext, fs) b root nonces =
              Inr ((ext, fs), [''benchmark '' @ b @ '' already pending submission''])) \<and>
         (Inr b \<in> set (pending_ids ext Proof) \<longrightarrow>
            on_proof_ready fd (ext, fs) b proofs =
              Inr ((ext, fs), [''proof '' @ b @ '' already in pending submissions'']))"
proof (intro conjI impI)
  from ready_run[OF assms, of fd fs]
  show "\<exists>ext' fs'. run fd (ext, fs) inputs = Inr (ext', fs') \<and>
            distinct (pending_ids ext' Benchmark) \<and> distinct (pending_ids ext' Proof)"
    by blast
next
  assume "Inr b \<in> set (pending_ids ext Benchmark)"
  then show "on_benchmark_ready fd (ext, fs) b root nonces =
              Inr ((ext, fs), [''benchmark '' @ b @ '' already pending submission''])"
    by (simp add: on_benchmark_ready_typed[OF assms(1)] del: os_path_join.simps)
next
  assume "Inr b \<in> set (pending_ids ext Proof)"
  then show "on_proof_ready fd (ext, fs) b proofs =
              Inr ((ext, fs), [''proof '' @ b @ '' already in pending submissions''])"
    by (simp add: on_proof_ready_typed[OF assms(1)] del: os_path_join.simps)
qed

theorem ready_events_no_duplicates_witness:
  "(\<exists>ext' fs'. run example_fd (example_ext, example_fs)
        [BenchmarkReady ''b1'' ''r9'' {9}, BenchmarkReady ''b7'' ''r7'' {7}, ProofReady ''b7'' [7],
         ProofReady ''b7'' [8] :: (unit, string, nat, unit, unit) input] = Inr (ext', fs') \<and>
      distinct (pending_ids ext' Benchmark) \<and> distinct (pending_ids ext' Proof)) \<and>
   on_benchmark_ready example_fd (example_ext, example_fs) ''b1'' ''r9'' {9} =
     Inr ((example_ext, example_fs), [''benchmark b1 already pending submission'']) \<and>
   on_proof_ready example_fd (example_ext, example_fs) ''b2'' [9] =
     Inr ((example_ext, example_fs), [''proof b2 already in pending submissions''])"
proof -
  have r: "\<forall>i\<in>set [BenchmarkReady ''b1'' ''r9'' {9}, BenchmarkReady ''b7'' ''r7'' {7}, ProofReady ''b7'' [7],
         ProofReady ''b7'' [8] :: (unit, string, nat, unit, unit) input]. is_ready i"
    by simp
  have b: "Inr ''b1'' \<in> set (pending_ids example_ext Benchmark)"
    and p: "Inr ''b2'' \<in> set (pending_ids example_ext Proof)"
    by (simp_all add: pending_ids_def example_ext_def fresh_def)
  note th1 = ready_events_no_duplicates [OF example_ext_typed example_ext_distinct r,
      of example_fd example_fs "''b1''" "''r9''" "{9}" "[9]"]
  note th2 = ready_events_no_duplicates [OF example_ext_typed example_ext_distinct r,
      of example_fd example_fs "''b2''" "''r9''" "{9}" "[9]"]
  from th1 have a1: "\<exists>ext' fs'. run example_fd (example_ext, example_fs)
        [BenchmarkReady ''b1'' ''r9'' {9}, BenchmarkReady ''b7'' ''r7'' {7}, ProofReady ''b7'' [7],
         ProofReady ''b7'' [8] :: (unit, string, nat, unit, unit) input] = Inr (ext', fs') \<and>
      distinct (pending_ids ext' Benchmark) \<and> distinct (pending_ids ext' Proof)"
    by (rule conjunct1)
  from th1 b have a2: "on_benchmark_ready example_fd (example_ext, example_fs) ''b1'' ''r9'' {9} =
     Inr ((example_ext, example_fs), [''benchmark b1 already pending submission''])"
    by simp
  from th2 p have a3: "on_proof_ready example_fd (example_ext, example_fs) ''b2'' [9] =
     Inr ((example_ext, example_fs), [''proof b2 already in pending submissions''])"
    by simp
  from a1 a2 a3 show ?thesis by (intro conjI)
qed

subsection \<open>Persisted, then restored\<close>

text \<open>
  Claim C6, as amended. Let the \<^verbatim>\<open>benchmark_id\<close> contain no path separator, let
  \<^verbatim>\<open>from_dict\<close> read back the dictionary that \<^verbatim>\<open>to_dict\<close> makes of the
  request, and let \<^verbatim>\<open>on_benchmark_ready\<close> (resp. \<^verbatim>\<open>on_proof_ready\<close>) accept
  the request and write its file. If every \<^verbatim>\<open>.json\<close> entry of the two backup
  directories can then be read and decoded, the construction of an extension on the same
  backup folder returns, and its benchmark (resp. proof) queue holds an item with this
  request, \<^verbatim>\<open>retries\<close> 0 and \<^verbatim>\<open>last_retry_time\<close> 0.
\<close>

theorem persist_then_restore:
  assumes "CHR ''/'' \<notin> set b"
  shows "(on_benchmark_ready fd (ext, fs) b root nonces = Inr ((ext1, fs1), []) \<and>
          benchmark_from_dict fd (to_dict fd (SubmitBenchmarkRequest b root nonces)) = Inr (b, root, nonces) \<and>
          restorable fd fs1 (backup_folder ext) \<longrightarrow>
          (\<exists>ext2 opened. Extension_init fd fs1 (backup_folder ext) cfg = Inr (ext2, opened) \<and>
             (\<exists>s\<in>set (pending_submissions ext2 Benchmark).
                request s = SubmitBenchmarkRequest b root nonces \<and> retries s = 0 \<and>
                last_retry_time s = 0))) \<and>
         (on_proof_ready fd (ext, fs) b proofs = Inr ((ext1', fs1'), []) \<and>
          proof_from_dict fd (to_dict fd (SubmitProofRequest b proofs)) = Inr (b, proofs) \<and>
          restorable fd fs1' (backup_folder ext) \<longrightarrow>
          (\<exists>ext2 opened. Extension_init fd fs1' (backup_folder ext) cfg = Inr (ext2, opened) \<and>
             (\<exists>s\<in>set (pending_submissions ext2 Proof).
                request s = SubmitProofRequest b proofs \<and> retries s = 0 \<and>
                last_retry_time s = 0)))"
proof (intro conjI impI)
  assume a: "on_benchmark_ready fd (ext, fs) b root nonces = Inr ((ext1, fs1), []) \<and>
          benchmark_from_dict fd (to_dict fd (SubmitBenchmarkRequest b root nonces)) = Inr (b, root, nonces) \<and>
          restorable fd fs1 (backup_folder ext)"
  define dir where "dir = os_path_join (backup_folder ext) [''benchmark'']"
  define d where "d = to_dict fd (SubmitBenchmarkRequest b root nonces)"
  from a on_benchmark_ready_accepted[of fd ext fs b root nonces ext1 fs1]
  have fs1: "fs1 = open_write fs (os_path_join dir [b @ ''.json'']) d"
    by (simp add: dir_def d_def del: os_path_join.simps)
  from a have rr: "restore_request fd Benchmark d = Inr (SubmitBenchmarkRequest b root nonces)"
    by (simp add: restore_request_def d_def)
  from a have "restorable fd fs1 (backup_folder ext)" by simp
  from Extension_init_returns[OF this, of cfg] obtain ext2 opened where
    i: "Extension_init fd fs1 (backup_folder ext) cfg = Inr (ext2, opened)" by blast
  then have "restore_pending_submissions fd fs1
       \<lparr>backup_folder = backup_folder ext, config = cfg, pending_submissions = (\<lambda>_. [])\<rparr> = Inr (ext2, opened)"
    by (simp add: Extension_init_def)
  from restore_pending_submissions_spec[OF this]
  obtain new where "pending_submissions ext2 Benchmark = new"
    and "list_all2 (restored fd fs1 Benchmark dir) new (json_files fs1 dir)"
    by (auto simp: dir_def simp del: os_path_join.simps)
  with restored_after_write[of fd fs dir b d Benchmark new, OF _ assms rr] fs1
  have "\<exists>s\<in>set (pending_submissions ext2 Benchmark).
      request s = SubmitBenchmarkRequest b root nonces \<and> retries s = 0 \<and> last_retry_time s = 0"
    by simp
  with i show "\<exists>ext2 opened. Extension_init fd fs1 (backup_folder ext) cfg = Inr (ext2, opened) \<and>
             (\<exists>s\<in>set (pending_submissions ext2 Benchmark).
                request s = SubmitBenchmarkRequest b root nonces \<and> retries s = 0 \<and>
                last_retry_time s = 0)"
    by blast
next
  assume a: "on_proof_ready fd (ext, fs) b proofs = Inr ((ext1', fs1'), []) \<and>
          proof_from_dict fd (to_dict fd (SubmitProofRequest b proofs)) = Inr (b, proofs) \<and>
          restorable fd fs1' (backup_folder ext)"
  define dir where "dir = os_path_join (backup_folder ext) [''proof'']"
  define d where "d = to_dict fd (SubmitProofRequest b proofs)"
  from a on_proof_ready_accepted[of fd ext fs b proofs ext1' fs1']
  have fs1: "fs1' = open_write fs (os_path_join dir [b @ ''.json'']) d"
    by (simp add: dir_def d_def del: os_path_join.simps)
  from a have rr: "restore_request fd Proof d = Inr (SubmitProofRequest b proofs)"
    by (simp add: restore_request_def d_def)
  from a have "restorable fd fs1' (backup_folder ext)" by simp
  from Extension_init_returns[OF this, of cfg] obtain ext2 opened where
    i: "Extension_init fd fs1' (backup_folder ext) cfg = Inr (ext2, opened)" by blast
  then have "restore_pending_submissions fd fs1'
       \<lparr>backup_folder = backup_folder ext, config = cfg, pending_submissions = (\<lambda>_. [])\<rparr> = Inr (ext2, opened)"
    by (simp add: Extension_init_def)
  from restore_pending_submissions_spec[OF this]
  obtain new where "pending_submissions ext2 Proof = new"
    and "list_all2 (restored fd fs1' Proof dir) new (json_files fs1' dir)"
    by (auto simp: dir_def simp del: os_path_join.simps)
  with restored_after_write[of fd fs dir b d Proof new, OF _ assms rr] fs1
  have "\<exists>s\<in>set (pending_submissions ext2 Proof).
      request s = SubmitProofRequest b proofs \<and> retries s = 0 \<and> last_retry_time s = 0"
    by simp
  with i show "\<exists>ext2 opened. Extension_init fd fs1' (backup_folder ext) cfg = Inr (ext2, opened) \<and>
             (\<exists>s\<in>set (pending_submissions ext2 Proof).
                request s = SubmitProofRequest b proofs \<and> retries s = 0 \<and>
                last_retry_time s = 0)"
    by blast
qed

theorem persist_then_restore_witness:
  "on_benchmark_ready example_fd (example_empty, example_fs) ''b5'' ''r5'' {5} =
     Inr ((example_empty\<lparr>pending_submissions :=
            (\<lambda>_. [])(Benchmark := [fresh (SubmitBenchmarkRequest ''b5'' ''r5'' {5})])\<rparr>,
           example_fs @ [(''backup/benchmark/b5.json'', SubmitBenchmarkRequest ''b5'' ''r5'' {5})]), []) \<and>
   restorable example_fd
     (example_fs @ [(''backup/benchmark/b5.json'', SubmitBenchmarkRequest ''b5'' ''r5'' {5})])
     ''backup'' \<and>
   (\<exists>ext2 opened.
      Extension_init example_fd
        (example_fs @ [(''backup/benchmark/b5.json'', SubmitBenchmarkRequest ''b5'' ''r5'' {5})])
        ''backup'' example_config = Inr (ext2, opened) \<and>
      (\<exists>s\<in>set (pending_submissions ext2 Benchmark).
         request s = SubmitBenchmarkRequest ''b5'' ''r5'' {5} \<and> retries s = 0 \<and>
         last_retry_time s = 0)) \<and>
   on_proof_ready example_fd (example_empty, example_fs) ''b5'' [5] =
     Inr ((example_empty\<lparr>pending_submissions :=
            (\<lambda>_. [])(Proof := [fresh (SubmitProofRequest ''b5'' [5])])\<rparr>,
           example_fs @ [(''backup/proof/b5.json'', SubmitProofRequest ''b5'' [5])]), []) \<and>
   restorable example_fd
     (example_fs @ [(''backup/proof/b5.json'', SubmitProofRequest ''b5'' [5])]) ''backup'' \<and>
   (\<exists>ext2 opened.
      Extension_init example_fd
        (example_fs @ [(''backup/proof/b5.json'', SubmitProofRequest ''b5'' [5])])
        ''backup'' example_config = Inr (ext2, opened) \<and>
      (\<exists>s\<in>set (pending_submissions ext2 Proof).
         request s = SubmitProofRequest ''b5'' [5] \<and> retries s = 0 \<and> last_retry_time s = 0))"
proof -
  have b: "CHR ''/'' \<notin> set ''b5''" by simp
  have bf: "backup_folder example_empty = ''backup''" by (simp add: example_empty_def)
  have rb: "benchmark_from_dict example_fd (to_dict example_fd (SubmitBenchmarkRequest ''b5'' ''r5'' {5}))
      = Inr (''b5'', ''r5'', {5})"
    and rp: "proof_from_dict example_fd (to_dict example_fd (SubmitProofRequest ''b5'' [5]))
      = Inr (''b5'', [5])"
    by (simp_all add: example_fd_def)
  note th = persist_then_restore [where b = "''b5''" and fd = example_fd and ext = example_empty
      and fs = example_fs and root = "''r5''" and nonces = "{5}" and proofs = "[5]"
      and cfg = example_config
      and ?ext1.0 = "example_empty\<lparr>pending_submissions :=
            (\<lambda>_. [])(Benchmark := [fresh (SubmitBenchmarkRequest ''b5'' ''r5'' {5})])\<rparr>"
      and ?fs1.0 = "example_fs @ [(''backup/benchmark/b5.json'', SubmitBenchmarkRequest ''b5'' ''r5'' {5})]"
      and ext1' = "example_empty\<lparr>pending_submissions :=
            (\<lambda>_. [])(Proof := [fresh (SubmitProofRequest ''b5'' [5])])\<rparr>"
      and fs1' = "example_fs @ [(''backup/proof/b5.json'', SubmitProofRequest ''b5'' [5])]", OF b]
  from th [THEN conjunct1, rule_format] ex_ready5 rb ex_restorable5 bf
  have 1: "\<exists>ext2 opened.
      Extension_init example_fd
        (example_fs @ [(''backup/benchmark/b5.json'', SubmitBenchmarkRequest ''b5'' ''r5'' {5})])
        ''backup'' example_config = Inr (ext2, opened) \<and>
      (\<exists>s\<in>set (pending_submissions ext2 Benchmark).
         request s = SubmitBenchmarkRequest ''b5'' ''r5'' {5} \<and> retries s = 0 \<and>
         last_retry_time s = 0)"
    by simp
  from th [THEN conjunct2, rule_format] ex_proof_ready5 rp ex_proof_restorable5 bf
  have 2: "\<exists>ext2 opened.
      Extension_init example_fd
        (example_fs @ [(''backup/proof/b5.json'', SubmitProofRequest ''b5'' [5])])
        ''backup'' example_config = Inr (ext2, opened) \<and>
      (\<exists>s\<in>set (pending_submissions ext2 Proof).
         request s = SubmitProofRequest ''b5'' [5] \<and> retries s = 0 \<and> last_retry_time s = 0)"
    by simp
  from ex_ready5 ex_restorable5 1 ex_proof_ready5 ex_proof_restorable5 2
  show ?thesis by (intro conjI)
qed

text \<open>
  The claim as it was stated fails in two ways. For an id that starts with a separator,
  \<^verbatim>\<open>os.path.join\<close> drops the backup folder: the file is written to
  \<^verbatim>\<open>/b1.json\<close>, and the restoration, which lists the backup folder, does not find
  it. And next to a \<^verbatim>\<open>.json\<close> file that does not decode, the request is accepted
  and persisted, but the construction of the extension raises.
\<close>

theorem persist_then_restore_counterexample:
  "on_benchmark_ready example_fd (example_empty, []) ''/b1'' ''r1'' {1} =
     Inr ((example_empty\<lparr>pending_submissions :=
            (\<lambda>_. [])(Benchmark := [fresh (SubmitBenchmarkRequest ''/b1'' ''r1'' {1})])\<rparr>,
           [(''/b1.json'', SubmitBenchmarkRequest ''/b1'' ''r1'' {1})]), []) \<and>
   benchmark_from_dict example_fd (to_dict example_fd (SubmitBenchmarkRequest ''/b1'' ''r1'' {1})) =
     Inr (''/b1'', ''r1'', {1}) \<and>
   Extension_init example_fd [(''/b1.json'', SubmitBenchmarkRequest ''/b1'' ''r1'' {1})]
     ''backup'' example_config = Inr (example_empty, []) \<and>
   pending_submissions example_empty Benchmark = [] \<and>
   on_benchmark_ready example_fd
     (example_empty, [(''backup/benchmark/old.json'', OtherRequest)]) ''b1'' ''r1'' {1} =
     Inr ((example_empty\<lparr>pending_submissions :=
            (\<lambda>_. [])(Benchmark := [fresh (SubmitBenchmarkRequest ''b1'' ''r1'' {1})])\<rparr>,
           [(''backup/benchmark/old.json'', OtherRequest),
            (''backup/benchmark/b1.json'', SubmitBenchmarkRequest ''b1'' ''r1'' {1})]), []) \<and>
   Extension_init example_fd
     [(''backup/benchmark/old.json'', OtherRequest),
      (''backup/benchmark/b1.json'', SubmitBenchmarkRequest ''b1'' ''r1'' {1})]
     ''backup'' example_config =
     (Inl ValueError :: error + (unit, string, nat) extension \<times> string list)"
  using ex_slash ex_slash_restore ex_old_ready ex_old_init
  by (simp add: example_fd_def example_empty_def)

subsection \<open>The events of a submission\<close>

text \<open>
  Claim C7. A submission that receives a response emits exactly one event. For a
  precommit request it is \<^verbatim>\<open>submit_precommit_success\<close> when the status is 200 and
  \<^verbatim>\<open>submit_precommit_error\<close> for any other status, whether the item is put back or
  not; for a benchmark request \<^verbatim>\<open>submit_benchmark_success\<close> and
  \<^verbatim>\<open>submit_benchmark_error\<close>; for a proof request \<^verbatim>\<open>submit_proof_success\<close>
  and \<^verbatim>\<open>submit_proof_error\<close>. The success event carries the response text and the
  dictionary of the request, the error event the response text, the status and the
  request.
\<close>

theorem submit_events:
  "(request s = SubmitPrecommitRequest settings num_nonces \<longrightarrow>
      (\<exists>ext'. submit fd ext s resp now =
         Inr (ext',
              [if resp_status resp = 200
               then (''submit_precommit_success'',
                     SuccessKwargs (resp_text resp) (to_dict fd (request s)))
               else (''submit_precommit_error'',
                     ErrorKwargs (resp_text resp) (resp_status resp) (request s))]))) \<and>
   (request s = SubmitBenchmarkRequest b merkle_root solution_nonces \<longrightarrow>
      (\<exists>ext'. submit fd ext s resp now =
         Inr (ext',
              [if resp_status resp = 200
               then (''submit_benchmark_success'',
                     SuccessKwargs (resp_text resp) (to_dict fd (request s)))
               else (''submit_benchmark_error'',
                     ErrorKwargs (resp_text resp) (resp_status resp) (request s))]))) \<and>
   (request s = SubmitProofRequest b merkle_proofs \<longrightarrow>
      (\<exists>ext'. submit fd ext s resp now =
         Inr (ext',
              [if resp_status resp = 200
               then (''submit_proof_success'',
                     SuccessKwargs (resp_text resp) (to_dict fd (request s)))
               else (''submit_proof_error'',
                     ErrorKwargs (resp_text resp) (resp_status resp) (request s))])))"
  by (simp add: submit_def Let_def)

theorem submit_events_witness:
  "(\<exists>ext'. submit example_fd example_ext (fresh (SubmitPrecommitRequest () 8))
        \<lparr>resp_status = 200, resp_text = ''ok''\<rparr> 7 =
      Inr (ext', [(''submit_precommit_success'', SuccessKwargs ''ok'' (SubmitPrecommitRequest () 8))])) \<and>
   (\<exists>ext'. submit example_fd example_ext (fresh (SubmitPrecommitRequest () 8))
        \<lparr>resp_status = 503, resp_text = ''busy''\<rparr> 7 =
      Inr (ext', [(''submit_precommit_error'', ErrorKwargs ''busy'' 503 (SubmitPrecommitRequest () 8))])) \<and>
   (\<exists>ext'. submit example_fd example_ext (fresh (SubmitBenchmarkRequest ''b4'' ''r4'' {4}))
        \<lparr>resp_status = 200, resp_text = ''ok''\<rparr> 7 =
      Inr (ext', [(''submit_benchmark_success'',
                   SuccessKwargs ''ok'' (SubmitBenchmarkRequest ''b4'' ''r4'' {4}))])) \<and>
   (\<exists>ext'. submit example_fd example_ext (fresh (SubmitBenchmarkRequest ''b4'' ''r4'' {4}))
        \<lparr>resp_status = 404, resp_text = ''gone''\<rparr> 7 =
      Inr (ext', [(''submit_benchmark_error'',
                   ErrorKwargs ''gone'' 404 (SubmitBenchmarkRequest ''b4'' ''r4'' {4}))])) \<and>
   (\<exists>ext'. submit example_fd example_ext (fresh (SubmitProofRequest ''b4'' [4]))
        \<lparr>resp_status = 200, resp_text = ''ok''\<rparr> 7 =
      Inr (ext', [(''submit_proof_success'', SuccessKwargs ''ok'' (SubmitProofRequest ''b4'' [4]))])) \<and>
   (\<exists>ext'. submit example_fd example_ext (fresh (SubmitProofRequest ''b4'' [4]))
        \<lparr>resp_status = 400, resp_text = ''bad''\<rparr> 7 =
      Inr (ext', [(''submit_proof_error'', ErrorKwargs ''bad'' 400 (SubmitProofRequest ''b4'' [4]))]))"
proof -
  from submit_events [where s = "fresh (SubmitPrecommitRequest () 8)" and settings = "()"
      and num_nonces = 8 and fd = example_fd and ext = example_ext and now = 7
      and resp = "\<lparr>resp_status = 200, resp_text = ''ok''\<rparr>", THEN conjunct1]
  have 1: "\<exists>ext'. submit example_fd example_ext (fresh (SubmitPrecommitRequest () 8))
        \<lparr>resp_status = 200, resp_text = ''ok''\<rparr> 7 =
      Inr (ext', [(''submit_precommit_success'', SuccessKwargs ''ok'' (SubmitPrecommitRequest () 8))])"
    by (simp add: fresh_def example_fd_def)
  from submit_events [where s = "fresh (SubmitPrecommitRequest () 8)" and settings = "()"
      and num_nonces = 8 and fd = example_fd and ext = example_ext and now = 7
      and resp = "\<lparr>resp_status = 503, resp_text = ''busy''\<rparr>", THEN conjunct1]
  have 2: "\<exists>ext'. submit example_fd example_ext (fresh (SubmitPrecommitRequest () 8))
        \<lparr>resp_status = 503, resp_text = ''busy''\<rparr> 7 =
      Inr (ext', [(''submit_precommit_error'', ErrorKwargs ''busy'' 503 (SubmitPrecommitRequest () 8))])"
    by (simp add: fresh_def example_fd_def)
  from submit_events [where s = "fresh (SubmitBenchmarkRequest ''b4'' ''r4'' {4})"
      and b = "''b4''" and merkle_root = "''r4''" and solution_nonces = "{4}"
      and fd = example_fd and ext = example_ext and now = 7
      and resp = "\<lparr>resp_status = 200, resp_text = ''ok''\<rparr>", THEN conjunct2, THEN conjunct1]
  have 3: "\<exists>ext'. submit example_fd example_ext (fresh (SubmitBenchmarkRequest ''b4'' ''r4'' {4}))
        \<lparr>resp_status = 200, resp_text = ''ok''\<rparr> 7 =
      Inr (ext', [(''submit_benchmark_success'',
                   SuccessKwargs ''ok'' (SubmitBenchmarkRequest ''b4'' ''r4'' {4}))])"
    by (simp add: fresh_def example_fd_def)
  from submit_events [where s = "fresh (SubmitBenchmarkRequest ''b4'' ''r4'' {4})"
      and b = "''b4''" and merkle_root = "''r4''" and solution_nonces = "{4}"
      and fd = example_fd and ext = example_ext and now = 7
      and resp = "\<lparr>resp_status = 404, resp_text = ''gone''\<rparr>", THEN conjunct2, THEN conjunct1]
  have 4: "\<exists>ext'. submit example_fd example_ext (fresh (SubmitBenchmarkRequest ''b4'' ''r4'' {4}))
        \<lparr>resp_status = 404, resp_text = ''gone''\<rparr> 7 =
      Inr (ext', [(''submit_benchmark_error'',
                   ErrorKwargs ''gone'' 404 (SubmitBenchmarkRequest ''b4'' ''r4'' {4}))])"
    by (simp add: fresh_def example_fd_def)
  from submit_events [where s = "fresh (SubmitProofRequest ''b4'' [4])"
      and b = "''b4''" and merkle_proofs = "[4]"
      and fd = example_fd and ext = example_ext and now = 7
      and resp = "\<lparr>resp_status = 200, resp_text = ''ok''\<rparr>", THEN conjunct2, THEN conjunct2]
  have 5: "\<exists>ext'. submit example_fd example_ext (fresh (SubmitProofRequest ''b4'' [4]))
        \<lparr>resp_status = 200, resp_text = ''ok''\<rparr> 7 =
      Inr (ext', [(''submit_proof_success'', SuccessKwargs ''ok'' (SubmitProofRequest ''b4'' [4]))])"
    by (simp add: fresh_def example_fd_def)
  from submit_events [where s = "fresh (SubmitProofRequest ''b4'' [4])"
      and b = "''b4''" and merkle_proofs = "[4]"
      and fd = example_fd and ext = example_ext and now = 7
      and resp = "\<lparr>resp_status = 400, resp_text = ''bad''\<rparr>", THEN conjunct2, THEN conjunct2]
  have 6: "\<exists>ext'. submit example_fd example_ext (fresh (SubmitProofRequest ''b4'' [4]))
        \<lparr>resp_status = 400, resp_text = ''bad''\<rparr> 7 =
      Inr (ext', [(''submit_proof_error'', ErrorKwargs ''bad'' 400 (SubmitProofRequest ''b4'' [4]))])"
    by (simp add: fresh_def example_fd_def)
  from 1 2 3 4 5 6 show ?thesis by (intro conjI)
qed

subsection \<open>Every queued request is of the class of its queue\<close>

text \<open>
  Claim C8. After the construction of the extension and any sequence of events, every
  handler has returned without an exception, every item of a queue holds a request of the
  class of that queue (so one of the three request classes), and \<^verbatim>\<open>on_update\<close>
  returns without an exception whatever the time and the responses: the
  \<^verbatim>\<open>ValueError\<close> of \<^verbatim>\<open>submit\<close> is not raised.
\<close>

theorem queued_requests_typed:
  assumes "Extension_init fd fs0 folder cfg = Inr (ext0, opened)"
  shows "\<exists>ext fs. run fd (ext0, fs0) inputs = Inr (ext, fs) \<and>
     (\<forall>st. \<forall>s\<in>set (pending_submissions ext st). request_submission_type (request s) = Inr st) \<and>
     (\<forall>now post. \<exists>ext' events. on_update fd now post ext = Inr (ext', events))"
proof -
  from Extension_init_spec[OF assms] have w0: "well_typed ext0" by simp
  from run_preserves[OF w0, of fd fs0 inputs 0]
  obtain ext fs where r: "run fd (ext0, fs0) inputs = Inr (ext, fs)" and w: "well_typed ext"
    by blast
  have u: "\<exists>ext' events. on_update fd now post ext = Inr (ext', events)" for now post
    using on_update_preserves[OF w, of fd now post 0] by blast
  have t: "\<forall>st. \<forall>s\<in>set (pending_submissions ext st). request_submission_type (request s) = Inr st"
    using w unfolding well_typed_def queue_typed_def by blast
  from r t u show ?thesis by blast
qed

theorem queued_requests_typed_witness:
  "Extension_init example_fd example_fs ''backup'' example_config =
     Inr (example_empty\<lparr>pending_submissions :=
            (\<lambda>_. [])(Benchmark := [fresh (SubmitBenchmarkRequest ''b1'' ''r1'' {1})],
                      Proof := [fresh (SubmitProofRequest ''b1'' [1])])\<rparr>,
          [''backup/benchmark/b1.json'', ''backup/proof/b1.json'']) \<and>
   run example_fd
     (example_empty\<lparr>pending_submissions :=
        (\<lambda>_. [])(Benchmark := [fresh (SubmitBenchmarkRequest ''b1'' ''r1'' {1})],
                  Proof := [fresh (SubmitProofRequest ''b1'' [1])])\<rparr>, example_fs)
     example_inputs =
     Inr (example_empty\<lparr>pending_submissions :=
            (\<lambda>_. [])(Benchmark :=
               [\<lparr>last_retry_time = 5001, retries = 1,
                 request = SubmitBenchmarkRequest ''b1'' ''r1'' {1}\<rparr>])\<rparr>,
          example_fs @ [(''backup/benchmark/b2.json'', SubmitBenchmarkRequest ''b2'' ''r2'' {2})]) \<and>
   (\<exists>ext fs. run example_fd
        (example_empty\<lparr>pending_submissions :=
            (\<lambda>_. [])(Benchmark := [fresh (SubmitBenchmarkRequest ''b1'' ''r1'' {1})],
                      Proof := [fresh (SubmitProofRequest ''b1'' [1])])\<rparr>, example_fs)
        example_inputs = Inr (ext, fs) \<and>
      (\<forall>st. \<forall>s\<in>set (pending_submissions ext st). request_submission_type (request s) = Inr st) \<and>
      (\<forall>now post. \<exists>ext' events. on_update example_fd now post ext = Inr (ext', events)))"
  using ex_init ex_run queued_requests_typed [OF ex_init, of example_inputs] by (intro conjI)

subsection \<open>Restoration reads the json files, benchmarks first\<close>

text \<open>
  Claim C9. The loop over a directory listing does what it does on the listing without
  the entries whose name does not end in \<^verbatim>\<open>.json\<close>: they are skipped, with no
  effect and no exception. When the restoration returns, the files it has opened are, in
  this order, the \<^verbatim>\<open>.json\<close> entries of the benchmark directory, in listing order,
  and then those of the proof directory; and the items appended to the benchmark (resp.
  proof) queue are, one for one and in this order, those decoded from these files.
\<close>

theorem restore_reads_json_only:
  "restore_files fd fs st path files acc =
     restore_files fd fs st path (filter (\<lambda>f. endswith f ''.json'') files) acc \<and>
   (restore_pending_submissions fd fs ext = Inr (ext', opened) \<longrightarrow>
    opened =
      map (\<lambda>f. os_path_join (os_path_join (backup_folder ext) [''benchmark'']) [f])
        (json_files fs (os_path_join (backup_folder ext) [''benchmark''])) @
      map (\<lambda>f. os_path_join (os_path_join (backup_folder ext) [''proof'']) [f])
        (json_files fs (os_path_join (backup_folder ext) [''proof''])) \<and>
    (\<exists>new. pending_submissions ext' Benchmark = pending_submissions ext Benchmark @ new \<and>
       list_all2 (restored fd fs Benchmark (os_path_join (backup_folder ext) [''benchmark''])) new
         (json_files fs (os_path_join (backup_folder ext) [''benchmark'']))) \<and>
    (\<exists>new. pending_submissions ext' Proof = pending_submissions ext Proof @ new \<and>
       list_all2 (restored fd fs Proof (os_path_join (backup_folder ext) [''proof''])) new
         (json_files fs (os_path_join (backup_folder ext) [''proof'']))))"
  (is "?skip \<and> (?returns \<longrightarrow> ?reads)")
proof (rule conjI)
  show ?skip by (rule restore_files_skips)
next
  show "?returns \<longrightarrow> ?reads"
  proof
    assume r: ?returns
    from restore_pending_submissions_spec [OF r] show ?reads
      by (elim conjE) (intro conjI)
  qed
qed

theorem restore_reads_json_only_witness:
  "restore_pending_submissions example_fd example_fs example_empty =
     Inr (example_empty\<lparr>pending_submissions :=
            (\<lambda>_. [])(Benchmark := [fresh (SubmitBenchmarkRequest ''b1'' ''r1'' {1})],
                      Proof := [fresh (SubmitProofRequest ''b1'' [1])])\<rparr>,
          [''backup/benchmark/b1.json'', ''backup/proof/b1.json'']) \<and>
   json_files example_fs ''backup/benchmark'' = [''b1.json''] \<and>
   json_files example_fs ''backup/proof'' = [''b1.json''] \<and>
   [''backup/benchmark/b1.json'', ''backup/proof/b1.json''] =
      map (\<lambda>f. os_path_join (os_path_join (backup_folder example_empty) [''benchmark'']) [f])
        (json_files example_fs (os_path_join (backup_folder example_empty) [''benchmark''])) @
      map (\<lambda>f. os_path_join (os_path_join (backup_folder example_empty) [''proof'']) [f])
        (json_files example_fs (os_path_join (backup_folder example_empty) [''proof'']))"
proof -
  have j: "json_files example_fs ''backup/benchmark'' = [''b1.json'']"
    "json_files example_fs ''backup/proof'' = [''b1.json'']"
    by (simp_all add: json_files_def example_fs_def eval_simps)
  from ex_restore
    restore_reads_json_only [THEN conjunct2, rule_format, OF ex_restore, THEN conjunct1] j
  show ?thesis by (intro conjI)
qed

subsection \<open>Retries stay below the maximum\<close>

text \<open>
  Claim C10. When \<^verbatim>\<open>max_retries\<close> is configured to \<open>N\<close> with \<open>N\<close> at
  least 1, then after the construction of the extension and any sequence of events, every
  item of every queue has \<^verbatim>\<open>retries\<close> below \<open>N\<close>.
\<close>

theorem retries_below_max_retries:
  assumes "Extension_init fd fs0 folder cfg = Inr (ext0, opened)"
    and "max_retries cfg = Some N" and "1 \<le> N"
  shows "\<exists>ext fs. run fd (ext0, fs0) inputs = Inr (ext, fs) \<and>
     (\<forall>st. \<forall>s\<in>set (pending_submissions ext st). retries s < N)"
proof -
  note i = Extension_init_spec[OF assms(1)]
  from i have w0: "well_typed ext0" and c0: "config ext0 = cfg" by simp_all
  from i assms(3) have b0: "retries_below N ext0" unfolding retries_below_def by fastforce
  from run_preserves[OF w0, of fd fs0 inputs N]
  obtain ext fs where r: "run fd (ext0, fs0) inputs = Inr (ext, fs)"
    and p: "max_retries (config ext0) = Some N \<longrightarrow> 0 < N \<longrightarrow> retries_below N ext0 \<longrightarrow> retries_below N ext"
    by blast
  from p c0 assms(2,3) b0 have "retries_below N ext" by simp
  with r show ?thesis unfolding retries_below_def by blast
qed

theorem retries_below_max_retries_witness:
  "Extension_init example_fd example_fs ''backup'' example_config =
     Inr (example_empty\<lparr>pending_submissions :=
            (\<lambda>_. [])(Benchmark := [fresh (SubmitBenchmarkRequest ''b1'' ''r1'' {1})],
                      Proof := [fresh (SubmitProofRequest ''b1'' [1])])\<rparr>,
          [''backup/benchmark/b1.json'', ''backup/proof/b1.json'']) \<and>
   max_retries example_config = Some 3 \<and>
   run example_fd
     (example_empty\<lparr>pending_submissions :=
        (\<lambda>_. [])(Benchmark := [fresh (SubmitBenchmarkRequest ''b1'' ''r1'' {1})],
                  Proof := [fresh (SubmitProofRequest ''b1'' [1])])\<rparr>, example_fs)
     example_inputs =
     Inr (example_empty\<lparr>pending_submissions :=
            (\<lambda>_. [])(Benchmark :=
               [\<lparr>last_retry_time = 5001, retries = 1,
                 request = SubmitBenchmarkRequest ''b1'' ''r1'' {1}\<rparr>])\<rparr>,
          example_fs @ [(''backup/benchmark/b2.json'', SubmitBenchmarkRequest ''b2'' ''r2'' {2})]) \<and>
   (\<exists>ext fs. run example_fd
        (example_empty\<lparr>pending_submissions :=
            (\<lambda>_. [])(Benchmark := [fresh (SubmitBenchmarkRequest ''b1'' ''r1'' {1})],
                      Proof := [fresh (SubmitProofRequest ''b1'' [1])])\<rparr>, example_fs)
        example_inputs = Inr (ext, fs) \<and>
      (\<forall>st. \<forall>s\<in>set (pending_submissions ext st). retries s < 3))"
proof -
  have m: "max_retries example_config = Some 3" by (simp add: example_config_def)
  have n: "(1::int) \<le> 3" by simp
  from ex_init m ex_run retries_below_max_retries [OF ex_init m n, of example_inputs]
  show ?thesis by (intro conjI)
qed

end
